theory Spec2Isabelle
  imports Complex_Main "HOL-Library.Product_Lexorder" "HOL-Library.Multiset"
begin

section \<open>Configuration\<close>

text \<open>
  The constants of the CONFIG block of \<^verbatim>\<open>Bot.py\<close>. The two XP ranges are the
  inclusive bounds handed to \<^verbatim>\<open>random.randint\<close>.
\<close>

definition LEVEL_MULTIPLIER :: int where
  "LEVEL_MULTIPLIER = 100"

definition XP_COOLDOWN :: real where
  "XP_COOLDOWN = 60"

definition REACTION_COOLDOWN :: real where
  "REACTION_COOLDOWN = 90"

definition XP_PER_MESSAGE :: "int \<times> int" where
  "XP_PER_MESSAGE = (5, 15)"

definition XP_PER_REACTION :: "int \<times> int" where
  "XP_PER_REACTION = (5, 15)"

section \<open>The progress store\<close>

text \<open>
  One row of table \<^verbatim>\<open>xp_data\<close> is keyed by \<^verbatim>\<open>(user_id, guild_id)\<close> and holds
  the two integer columns \<^verbatim>\<open>xp\<close> and \<^verbatim>\<open>level\<close>. The table is kept as a list of
  rows in storage order, because the ranking queries depend on an order of the rows; the
  primary key makes the keys of the list distinct. Python integers are unbounded; an
  \<^verbatim>\<open>INTEGER\<close> column holds 64 bits, and the \<^verbatim>\<open>sqlite3\<close> module raises
  \<^verbatim>\<open>OverflowError\<close> when a statement is given a parameter outside that range, before
  the statement runs. User and guild ids are the ids the chat platform issues, which lie
  within the range.
\<close>

record progress =
  xp :: int
  level :: int

type_synonym row_key = "int \<times> int"

type_synonym xp_table = "(row_key \<times> progress) list"

datatype error = OverflowError

definition sqlite_int :: "int \<Rightarrow> bool" where
  "sqlite_int i = (- (2 ^ 63) \<le> i \<and> i < 2 ^ 63)"

text \<open>A row that fits the two columns.\<close>

definition fits :: "progress \<Rightarrow> bool" where
  "fits d = (sqlite_int (xp d) \<and> sqlite_int (level d))"

text \<open>\<^verbatim>\<open>SELECT xp, level FROM xp_data WHERE user_id = ? AND guild_id = ?\<close>, one row.\<close>

definition select_row :: "row_key \<Rightarrow> xp_table \<Rightarrow> progress option" where
  "select_row k t = map_of t k"

text \<open>
  \<^verbatim>\<open>INSERT OR REPLACE\<close>: a row with the same primary key is deleted, and the new row
  is stored behind all others.
\<close>

definition insert_or_replace :: "row_key \<Rightarrow> progress \<Rightarrow> xp_table \<Rightarrow> xp_table" where
  "insert_or_replace k v t = filter (\<lambda>r. fst r \<noteq> k) t @ [(k, v)]"

text \<open>\<^verbatim>\<open>UPDATE ... WHERE user_id = ? AND guild_id = ?\<close>: rows are rewritten in place, and a
  missing row means that nothing is written.\<close>

definition update_row :: "row_key \<Rightarrow> progress \<Rightarrow> xp_table \<Rightarrow> xp_table" where
  "update_row k v t = map (\<lambda>r. if fst r = k then (k, v) else r) t"

text \<open>\<^verbatim>\<open>DELETE FROM xp_data WHERE user_id = ? AND guild_id = ?\<close>.\<close>

definition delete_row :: "row_key \<Rightarrow> xp_table \<Rightarrow> xp_table" where
  "delete_row k t = filter (\<lambda>r. fst r \<noteq> k) t"

section \<open>XP helpers\<close>

definition xp_for_next_level :: "int \<Rightarrow> int" where
  "xp_for_next_level lvl = lvl * LEVEL_MULTIPLIER"

definition default_progress :: progress where
  "default_progress = \<lparr>xp = 0, level = 1\<rparr>"

text \<open>
  \<^verbatim>\<open>get_user_data\<close> returns the stored row, or creates the default row and returns it.
\<close>

definition get_user_data :: "int \<Rightarrow> int \<Rightarrow> xp_table \<Rightarrow> progress \<times> xp_table" where
  "get_user_data user_id guild_id t =
     (case select_row (user_id, guild_id) t of
        Some row \<Rightarrow> (row, t)
      | None \<Rightarrow> (default_progress, insert_or_replace (user_id, guild_id) default_progress t))"

text \<open>
  \<^verbatim>\<open>update_user_data\<close> hands xp and level to the \<^verbatim>\<open>UPDATE\<close>: outside the range
  of the columns the call raises and nothing is written.
\<close>

definition update_user_data :: "int \<Rightarrow> int \<Rightarrow> int \<Rightarrow> int \<Rightarrow> xp_table \<Rightarrow> error + xp_table" where
  "update_user_data user_id guild_id x l t =
     (if sqlite_int x \<and> sqlite_int l
      then Inr (update_row (user_id, guild_id) \<lparr>xp = x, level = l\<rparr> t)
      else Inl OverflowError)"

text \<open>
  The \<^verbatim>\<open>while\<close> loop of \<^verbatim>\<open>add_xp_manual\<close>, on the local dictionary \<^verbatim>\<open>data\<close> and
  the flag \<^verbatim>\<open>leveled_up\<close>. Below level 1 the threshold is not positive and every round
  raises the level; from level 1 on every round takes at least 100 from a positive xp.
\<close>

function add_xp_manual_loop :: "progress \<Rightarrow> bool \<Rightarrow> progress \<times> bool" where
  "add_xp_manual_loop d leveled_up =
     (if xp d \<ge> xp_for_next_level (level d)
      then add_xp_manual_loop \<lparr>xp = xp d - xp_for_next_level (level d), level = level d + 1\<rparr> True
      else (d, leveled_up))"
  by pat_completeness auto
termination
  by (relation "measures [\<lambda>(d, u). nat (1 - level d), \<lambda>(d, u). nat (xp d)]")
     (auto simp: xp_for_next_level_def LEVEL_MULTIPLIER_def)

declare add_xp_manual_loop.simps [simp del]

text \<open>
  The functions that write a row return what the Python function returns, or the error it
  raises, together with the table they leave. When \<^verbatim>\<open>update_user_data\<close> raises, the
  table is the one \<^verbatim>\<open>get_user_data\<close> left, which has committed the default row of a
  new key.
\<close>

definition add_xp_manual ::
  "int \<Rightarrow> int \<Rightarrow> int \<Rightarrow> xp_table \<Rightarrow> (error + bool \<times> int) \<times> xp_table" where
  "add_xp_manual user_id guild_id amount t =
     (let (data, t1) = get_user_data user_id guild_id t;
          data1 = data\<lparr>xp := xp data + amount\<rparr>;
          (data2, leveled_up) = add_xp_manual_loop data1 False
      in case update_user_data user_id guild_id (xp data2) (level data2) t1 of
           Inl e \<Rightarrow> (Inl e, t1)
         | Inr t2 \<Rightarrow> (Inr (leveled_up, level data2), t2))"

definition remove_user_xp :: "int \<Rightarrow> int \<Rightarrow> int \<Rightarrow> xp_table \<Rightarrow> (error + int) \<times> xp_table" where
  "remove_user_xp user_id guild_id amount t =
     (let (data, t1) = get_user_data user_id guild_id t;
          data1 = data\<lparr>xp := max 0 (xp data - amount)\<rparr>
      in case update_user_data user_id guild_id (xp data1) (level data1) t1 of
           Inl e \<Rightarrow> (Inl e, t1)
         | Inr t2 \<Rightarrow> (Inr (xp data1), t2))"

definition reset_user_xp :: "int \<Rightarrow> int \<Rightarrow> xp_table \<Rightarrow> xp_table" where
  "reset_user_xp user_id guild_id t = delete_row (user_id, guild_id) t"

text \<open>
  The admin commands. \<^verbatim>\<open>is_admin\<close> is the value of \<^verbatim>\<open>is_admin_member(ctx.author)\<close>;
  a caller who is no admin gets a refusal message and the store is not touched. An error
  raised by \<^verbatim>\<open>add_xp_manual\<close> ends the command, and the store stays as
  \<^verbatim>\<open>add_xp_manual\<close> left it. The replies sent to the channel are not part of the model.
\<close>

definition addxp_prefix :: "bool \<Rightarrow> int \<Rightarrow> int \<Rightarrow> int \<Rightarrow> xp_table \<Rightarrow> xp_table" where
  "addxp_prefix is_admin member_id guild_id amount t =
     (if \<not> is_admin then t else snd (add_xp_manual member_id guild_id amount t))"

definition removexp_prefix :: "bool \<Rightarrow> int \<Rightarrow> int \<Rightarrow> int \<Rightarrow> xp_table \<Rightarrow> xp_table" where
  "removexp_prefix is_admin member_id guild_id amount t =
     (if \<not> is_admin then t else reset_user_xp member_id guild_id t)"

section \<open>Ranking queries\<close>

text \<open>
  \<^verbatim>\<open>ORDER BY level DESC, xp DESC\<close>: rows are sorted on the pair of the negated level
  and the negated xp, compared lexicographically. The sort is stable, so rows that agree on
  both columns stay in storage order.
\<close>

definition rank_key :: "row_key \<times> progress \<Rightarrow> int \<times> int" where
  "rank_key r = (- level (snd r), - xp (snd r))"

definition order_by_rank :: "xp_table \<Rightarrow> xp_table" where
  "order_by_rank rows = sort_key rank_key rows"

definition guild_rows :: "int \<Rightarrow> xp_table \<Rightarrow> xp_table" where
  "guild_rows guild_id t = filter (\<lambda>r. snd (fst r) = guild_id) t"

text \<open>The query of \<^verbatim>\<open>get_top_user_id\<close>, with \<^verbatim>\<open>LIMIT 1\<close>.\<close>

definition get_top_user_id :: "int \<Rightarrow> xp_table \<Rightarrow> int option" where
  "get_top_user_id guild_id t =
     (case take 1 (order_by_rank (guild_rows guild_id t)) of
        [] \<Rightarrow> None
      | r # _ \<Rightarrow> Some (fst (fst r)))"

text \<open>
  The rows that \<^verbatim>\<open>leaderboard_prefix\<close> (and the slash command of the same text) hands
  to the embed: \<^verbatim>\<open>(user_id, xp, level)\<close>, with \<^verbatim>\<open>LIMIT 10\<close>.
\<close>

definition leaderboard_prefix :: "int \<Rightarrow> xp_table \<Rightarrow> (int \<times> int \<times> int) list" where
  "leaderboard_prefix guild_id t =
     map (\<lambda>r. (fst (fst r), xp (snd r), level (snd r)))
       (take 10 (order_by_rank (guild_rows guild_id t)))"

section \<open>Process state\<close>

text \<open>
  Keys of the dictionary \<^verbatim>\<open>cooldowns\<close> are tuples of the guild id and either the
  user id itself (messages) or the string \<^verbatim>\<open>f"react_{id}"\<close> (reactions). A Python
  integer never equals a string, hence the two constructors.
\<close>

datatype subject_key = IdKey int | StrKey string

function str_nat :: "nat \<Rightarrow> string" where
  "str_nat n =
     (if n < 10 then [''0123456789'' ! n]
      else str_nat (n div 10) @ [''0123456789'' ! (n mod 10)])"
  by pat_completeness auto
termination
  by (relation "measure id") auto

declare str_nat.simps [simp del]

definition str_int :: "int \<Rightarrow> string" where
  "str_int i = (if i < 0 then CHR ''-'' # str_nat (nat (- i)) else str_nat (nat i))"

definition react_key :: "int \<Rightarrow> subject_key" where
  "react_key user_id = StrKey (''react_'' @ str_int user_id)"

text \<open>
  Calls of the role API of the chat platform: guild, member, role. Whether a call succeeds
  is decided by the platform (permissions, stale references); the model takes that decision
  as the field \<^verbatim>\<open>api_ok\<close> and records every call that is made.
\<close>

datatype role_call = RemoveRoles int int int | AddRoles int int int

text \<open>
  The state the handlers work on: the table \<^verbatim>\<open>xp_data\<close>, the table
  \<^verbatim>\<open>reward_roles\<close>, the dictionaries \<^verbatim>\<open>cooldowns\<close> and \<^verbatim>\<open>last_top_user\<close>,
  the guild ids for which \<^verbatim>\<open>add_xp\<close> has created a \<^verbatim>\<open>check_top_user_change\<close>
  task, and the guilds as the platform shows them (the roles a guild has, the roles each
  member holds). Timestamps are the floats of the event loop clock, taken as real numbers.
\<close>

record world =
  xp_data :: xp_table
  reward_roles :: "int \<rightharpoonup> int"
  cooldowns :: "int \<times> subject_key \<rightharpoonup> real"
  last_top_user :: "int \<rightharpoonup> int"
  created_tasks :: "int list"
  guild_roles :: "int \<Rightarrow> int set"
  member_roles :: "int \<Rightarrow> int \<rightharpoonup> int set"
  api_ok :: "role_call \<Rightarrow> bool"
  calls :: "role_call list"

section \<open>The event path\<close>

text \<open>
  \<^verbatim>\<open>add_xp\<close> checks the threshold once (an \<^verbatim>\<open>if\<close>, where \<^verbatim>\<open>add_xp_manual\<close> has
  a \<^verbatim>\<open>while\<close>), writes the row and creates the task that checks the top user.
  \<^verbatim>\<open>add_xp_check\<close> is that \<^verbatim>\<open>if\<close>, on the local dictionary \<^verbatim>\<open>data\<close> after the
  amount has been added. When the write raises, no task is created.
\<close>

definition add_xp_check :: "progress \<Rightarrow> progress \<times> bool" where
  "add_xp_check d =
     (if xp d \<ge> xp_for_next_level (level d)
      then (\<lparr>xp = xp d - xp_for_next_level (level d), level = level d + 1\<rparr>, True)
      else (d, False))"

definition add_xp :: "int \<Rightarrow> int \<Rightarrow> int \<Rightarrow> world \<Rightarrow> (error + bool \<times> int) \<times> world" where
  "add_xp user_id guild_id amount w =
     (let (data, t1) = get_user_data user_id guild_id (xp_data w);
          data1 = data\<lparr>xp := xp data + amount\<rparr>;
          (data2, leveled_up) = add_xp_check data1
      in case update_user_data user_id guild_id (xp data2) (level data2) t1 of
           Inl e \<Rightarrow> (Inl e, w\<lparr>xp_data := t1\<rparr>)
         | Inr t2 \<Rightarrow>
             (Inr (leveled_up, level data2),
              w\<lparr>xp_data := t2, created_tasks := created_tasks w @ [guild_id]\<rparr>))"

text \<open>\<^verbatim>\<open>cooldowns.get(key, 0)\<close> and the comparison that gates a grant.\<close>

definition last_grant :: "world \<Rightarrow> int \<times> subject_key \<Rightarrow> real" where
  "last_grant w k = (case cooldowns w k of None \<Rightarrow> 0 | Some t \<Rightarrow> t)"

definition eligible :: "world \<Rightarrow> int \<times> subject_key \<Rightarrow> real \<Rightarrow> real \<Rightarrow> bool" where
  "eligible w k now duration = (now - last_grant w k \<ge> duration)"

definition record_grant :: "int \<times> subject_key \<Rightarrow> real \<Rightarrow> world \<Rightarrow> world" where
  "record_grant k now w = w\<lparr>cooldowns := (cooldowns w)(k \<mapsto> now)\<rparr>"

text \<open>
  The XP part of \<^verbatim>\<open>on_message\<close>. \<^verbatim>\<open>guild\<close> is \<^verbatim>\<open>None\<close> for a direct message,
  \<^verbatim>\<open>exp_gain\<close> is the number drawn by \<^verbatim>\<open>random.randint\<close>. The time is recorded
  after \<^verbatim>\<open>add_xp\<close> has returned; an error raised by \<^verbatim>\<open>add_xp\<close> ends the handler.
  Forwarding of direct messages, the level-up announcement and command dispatch are left out.
\<close>

definition on_message :: "int option \<Rightarrow> int \<Rightarrow> bool \<Rightarrow> real \<Rightarrow> int \<Rightarrow> world \<Rightarrow> world" where
  "on_message guild user_id author_bot now exp_gain w =
     (case guild of
        None \<Rightarrow> w
      | Some guild_id \<Rightarrow>
          if author_bot then w
          else if eligible w (guild_id, IdKey user_id) now XP_COOLDOWN
          then (case add_xp user_id guild_id exp_gain w of
                  (Inl e, w1) \<Rightarrow> w1
                | (Inr r, w1) \<Rightarrow> record_grant (guild_id, IdKey user_id) now w1)
          else w)"

text \<open>
  \<^verbatim>\<open>on_reaction_add\<close>: first the reacting user, then the author of the message, who
  is given as id and bot flag (or \<^verbatim>\<open>None\<close>). Each of the two grants draws its own
  number. An error raised by the first \<^verbatim>\<open>add_xp\<close> ends the handler before the author is
  looked at.
\<close>

definition on_reaction_add ::
  "int option \<Rightarrow> int \<Rightarrow> bool \<Rightarrow> (int \<times> bool) option \<Rightarrow> real \<Rightarrow> int \<Rightarrow> int \<Rightarrow> world \<Rightarrow> world" where
  "on_reaction_add guild user_id user_bot author now gain_user gain_author w =
     (case guild of
        None \<Rightarrow> w
      | Some guild_id \<Rightarrow>
          if user_bot then w
          else
            let (raised, w1) =
                 (if eligible w (guild_id, react_key user_id) now REACTION_COOLDOWN
                  then (case add_xp user_id guild_id gain_user w of
                          (Inl e, w') \<Rightarrow> (True, w')
                        | (Inr r, w') \<Rightarrow>
                            (False, record_grant (guild_id, react_key user_id) now w'))
                  else (False, w))
            in if raised then w1
               else (case author of
                  None \<Rightarrow> w1
                | Some (author_id, author_bot) \<Rightarrow>
                    if author_bot then w1
                    else if eligible w1 (guild_id, react_key author_id) now REACTION_COOLDOWN
                    then (case add_xp author_id guild_id gain_author w1 of
                            (Inl e, w') \<Rightarrow> w'
                          | (Inr r, w') \<Rightarrow>
                              record_grant (guild_id, react_key author_id) now w')
                    else w1))"

text \<open>
  One of the two blocks of \<^verbatim>\<open>on_reaction_add\<close> on its own, for stating facts about
  the handler: the state a block leaves for the user \<^verbatim>\<open>k\<close>, and whether its
  \<^verbatim>\<open>add_xp\<close> raised.
\<close>

definition gated_grant :: "int \<Rightarrow> int \<Rightarrow> real \<Rightarrow> int \<Rightarrow> world \<Rightarrow> world" where
  "gated_grant g k now gain w =
     (if eligible w (g, react_key k) now REACTION_COOLDOWN
      then (if isl (fst (add_xp k g gain w)) then snd (add_xp k g gain w)
            else record_grant (g, react_key k) now (snd (add_xp k g gain w)))
      else w)"

definition gated_raised :: "int \<Rightarrow> int \<Rightarrow> real \<Rightarrow> int \<Rightarrow> world \<Rightarrow> bool" where
  "gated_raised g k now gain w =
     (eligible w (g, react_key k) now REACTION_COOLDOWN \<and> isl (fst (add_xp k g gain w)))"

section \<open>Top user and reward role\<close>

definition get_reward_role_id :: "int \<Rightarrow> world \<Rightarrow> int option" where
  "get_reward_role_id guild_id w = reward_roles w guild_id"

text \<open>
  \<^verbatim>\<open>member.remove_roles(role)\<close> and \<^verbatim>\<open>member.add_roles(role)\<close>: the call is
  made; when the platform refuses it the exception is caught by the caller and the roles of
  the member stay as they are.
\<close>

definition remove_roles :: "int \<Rightarrow> int \<Rightarrow> int \<Rightarrow> world \<Rightarrow> world" where
  "remove_roles guild_id member_id role_id w =
     (let c = RemoveRoles guild_id member_id role_id;
          w1 = w\<lparr>calls := calls w @ [c]\<rparr>
      in if api_ok w c
         then (case member_roles w guild_id member_id of
                 None \<Rightarrow> w1
               | Some rs \<Rightarrow>
                   w1\<lparr>member_roles := (member_roles w)
                        (guild_id := (member_roles w guild_id)(member_id \<mapsto> rs - {role_id}))\<rparr>)
         else w1)"

definition add_roles :: "int \<Rightarrow> int \<Rightarrow> int \<Rightarrow> world \<Rightarrow> world" where
  "add_roles guild_id member_id role_id w =
     (let c = AddRoles guild_id member_id role_id;
          w1 = w\<lparr>calls := calls w @ [c]\<rparr>
      in if api_ok w c
         then (case member_roles w guild_id member_id of
                 None \<Rightarrow> w1
               | Some rs \<Rightarrow>
                   w1\<lparr>member_roles := (member_roles w)
                        (guild_id := (member_roles w guild_id)(member_id \<mapsto> insert role_id rs))\<rparr>)
         else w1)"

text \<open>
  \<^verbatim>\<open>check_top_user_change\<close>. The tests \<^verbatim>\<open>if not top_id\<close>, \<^verbatim>\<open>if not role_id\<close>
  and \<^verbatim>\<open>if prev\<close> also reject the integer 0. The cache is written before the reward
  role is looked up. The congratulation sent to the system channel is left out.
\<close>

definition check_top_user_change :: "int \<Rightarrow> world \<Rightarrow> world" where
  "check_top_user_change guild_id w =
     (case get_top_user_id guild_id (xp_data w) of
        None \<Rightarrow> w
      | Some top_id \<Rightarrow>
          if top_id = 0 then w
          else
            let prev = last_top_user w guild_id in
            if prev = Some top_id then w
            else
              let w1 = w\<lparr>last_top_user := (last_top_user w)(guild_id \<mapsto> top_id)\<rparr> in
              (case get_reward_role_id guild_id w1 of
                 None \<Rightarrow> w1
               | Some role_id \<Rightarrow>
                   if role_id = 0 then w1
                   else if role_id \<notin> guild_roles w1 guild_id then w1
                   else
                     let w2 =
                          (case prev of
                             None \<Rightarrow> w1
                           | Some p \<Rightarrow>
                               if p = 0 then w1
                               else (case member_roles w1 guild_id p of
                                       None \<Rightarrow> w1
                                     | Some rs \<Rightarrow>
                                         if role_id \<in> rs
                                         then remove_roles guild_id p role_id w1
                                         else w1))
                     in (case member_roles w2 guild_id top_id of
                           None \<Rightarrow> w2
                         | Some rs \<Rightarrow> add_roles guild_id top_id role_id w2)))"

definition is_remove :: "role_call \<Rightarrow> bool" where
  "is_remove c = (case c of RemoveRoles _ _ _ \<Rightarrow> True | AddRoles _ _ _ \<Rightarrow> False)"

definition is_add :: "role_call \<Rightarrow> bool" where
  "is_add c = (case c of RemoveRoles _ _ _ \<Rightarrow> False | AddRoles _ _ _ \<Rightarrow> True)"

section \<open>Concurrent grants\<close>

text \<open>
  \<^verbatim>\<open>run_db\<close> takes \<^verbatim>\<open>db_lock\<close> for one statement: the lock is acquired and released
  inside each call. A coroutine running \<^verbatim>\<open>add_xp\<close> is therefore suspended three times
  at most, at the \<^verbatim>\<open>SELECT\<close> and the \<^verbatim>\<open>INSERT\<close> of \<^verbatim>\<open>get_user_data\<close> and at
  the \<^verbatim>\<open>UPDATE\<close> of \<^verbatim>\<open>update_user_data\<close>, and between two of its statements the
  event loop may run statements of other coroutines. A task is \<^verbatim>\<open>add_xp\<close> cut at
  these points: it remembers where it stands and the local dictionary \<^verbatim>\<open>data\<close>, and
  it ends with the value returned or the error raised.
\<close>

datatype grant_pc =
  AtSelect | AtInsert | AtUpdate progress | Finished "bool \<times> int" | Raised error

record grant_task =
  task_user :: int
  task_guild :: int
  task_amount :: int
  task_pc :: grant_pc

definition new_task :: "int \<Rightarrow> int \<Rightarrow> int \<Rightarrow> grant_task" where
  "new_task user_id guild_id amount =
     \<lparr>task_user = user_id, task_guild = guild_id, task_amount = amount, task_pc = AtSelect\<rparr>"

definition grant_step :: "grant_task \<Rightarrow> world \<Rightarrow> grant_task \<times> world" where
  "grant_step tk w =
     (case task_pc tk of
        AtSelect \<Rightarrow>
          (case select_row (task_user tk, task_guild tk) (xp_data w) of
             Some row \<Rightarrow> (tk\<lparr>task_pc := AtUpdate row\<rparr>, w)
           | None \<Rightarrow> (tk\<lparr>task_pc := AtInsert\<rparr>, w))
      | AtInsert \<Rightarrow>
          (tk\<lparr>task_pc := AtUpdate default_progress\<rparr>,
           w\<lparr>xp_data := insert_or_replace (task_user tk, task_guild tk) default_progress (xp_data w)\<rparr>)
      | AtUpdate data \<Rightarrow>
          (let data1 = data\<lparr>xp := xp data + task_amount tk\<rparr>;
               (data2, leveled_up) = add_xp_check data1
           in case update_user_data (task_user tk) (task_guild tk) (xp data2) (level data2)
                     (xp_data w) of
                Inl e \<Rightarrow> (tk\<lparr>task_pc := Raised e\<rparr>, w)
              | Inr t2 \<Rightarrow>
                  (tk\<lparr>task_pc := Finished (leveled_up, level data2)\<rparr>,
                   w\<lparr>xp_data := t2, created_tasks := created_tasks w @ [task_guild tk]\<rparr>))
      | Finished r \<Rightarrow> (tk, w)
      | Raised e \<Rightarrow> (tk, w))"

text \<open>A schedule names, step by step, the task that the event loop resumes.\<close>

fun run_schedule :: "nat list \<Rightarrow> grant_task list \<Rightarrow> world \<Rightarrow> grant_task list \<times> world" where
  "run_schedule [] tks w = (tks, w)"
| "run_schedule (i # sched) tks w =
     (if i < length tks
      then (let (tk, w1) = grant_step (tks ! i) w in run_schedule sched (tks[i := tk]) w1)
      else run_schedule sched tks w)"

definition finished :: "grant_task \<Rightarrow> bool" where
  "finished tk = (case task_pc tk of Finished _ \<Rightarrow> True | _ \<Rightarrow> False)"

section \<open>Start-up state\<close>

text \<open>
  The process starts with empty dictionaries; \<^verbatim>\<open>start_world\<close> is that state over an
  empty database and a platform that has no guild data and accepts every call. The
  scenarios below are built from it.
\<close>

definition start_world :: world where
  "start_world =
     \<lparr>xp_data = [], reward_roles = Map.empty, cooldowns = Map.empty,
      last_top_user = Map.empty, created_tasks = [],
      guild_roles = (\<lambda>g. {}), member_roles = (\<lambda>g. Map.empty),
      api_ok = (\<lambda>c. True), calls = []\<rparr>"

text \<open>
  A guild 9 whose reward role 77 is held by member 1, the cached leader, while member 2
  has overtaken member 1 in the table.
\<close>

definition overtaken_world :: world where
  "overtaken_world =
     start_world\<lparr>xp_data := [((1, 9), \<lparr>xp = 10, level = 2\<rparr>), ((2, 9), \<lparr>xp = 0, level = 3\<rparr>)],
       reward_roles := [9 \<mapsto> 77], last_top_user := [9 \<mapsto> 1],
       guild_roles := (\<lambda>g. {77}), member_roles := (\<lambda>g. [1 \<mapsto> {77}, 2 \<mapsto> {}])\<rparr>"

section \<open>The invariant of the store\<close>

text \<open>
  The invariant of a progress row: the level is at least 1, the xp lies below the
  threshold of the level, and the row fits the columns. \<^verbatim>\<open>reachable\<close> collects the states the process gets to from
  an empty database, one handler after the other: messages and reactions with gains drawn
  from the configured ranges, the admin commands, the rank command (which reads through
  \<^verbatim>\<open>get_user_data\<close>), and anything that leaves table \<^verbatim>\<open>xp_data\<close> alone.
\<close>

definition row_ok :: "progress \<Rightarrow> bool" where
  "row_ok p = (1 \<le> level p \<and> xp p < xp_for_next_level (level p) \<and> fits p)"

definition store_ok :: "xp_table \<Rightarrow> bool" where
  "store_ok t = list_all (\<lambda>r. row_ok (snd r)) t"

inductive reachable :: "world \<Rightarrow> bool" where
  boot: "xp_data w = [] \<Longrightarrow> reachable w"
| message: "reachable w \<Longrightarrow> fst XP_PER_MESSAGE \<le> gain \<Longrightarrow> gain \<le> snd XP_PER_MESSAGE
     \<Longrightarrow> reachable (on_message guild u is_bot now gain w)"
| reaction: "reachable w \<Longrightarrow> fst XP_PER_REACTION \<le> gain_user \<Longrightarrow> gain_user \<le> snd XP_PER_REACTION
     \<Longrightarrow> fst XP_PER_REACTION \<le> gain_author \<Longrightarrow> gain_author \<le> snd XP_PER_REACTION
     \<Longrightarrow> reachable (on_reaction_add guild u is_bot author now gain_user gain_author w)"
| addxp: "reachable w \<Longrightarrow> reachable (w\<lparr>xp_data := addxp_prefix adm u g amount (xp_data w)\<rparr>)"
| removexp: "reachable w \<Longrightarrow> reachable (w\<lparr>xp_data := removexp_prefix adm u g amount (xp_data w)\<rparr>)"
| rank: "reachable w \<Longrightarrow> reachable (w\<lparr>xp_data := snd (get_user_data u g (xp_data w))\<rparr>)"
| other: "reachable w \<Longrightarrow> xp_data w' = xp_data w \<Longrightarrow> reachable w'"

section \<open>Facts about the store\<close>

lemma select_insert_or_replace:
  "select_row k' (insert_or_replace k v t) = (if k' = k then Some v else select_row k' t)"
proof -
  have "map_of (filter (\<lambda>r. fst r \<noteq> k) t) k = None"
    by (induction t) auto
  moreover have "k' \<noteq> k \<Longrightarrow> map_of (filter (\<lambda>r. fst r \<noteq> k) t) k' = map_of t k'"
    by (induction t) auto
  ultimately show ?thesis
    by (auto simp: select_row_def insert_or_replace_def map_add_def split: option.splits)
qed

lemma select_update_row:
  "select_row k' (update_row k v t) =
     (if k' = k \<and> select_row k t \<noteq> None then Some v else select_row k' t)"
  unfolding select_row_def update_row_def
  by (induction t) auto

lemma select_delete_row:
  "select_row k' (delete_row k t) = (if k' = k then None else select_row k' t)"
  unfolding select_row_def delete_row_def
  by (induction t) auto

lemma select_get_user_data:
  "select_row (u, g) (snd (get_user_data u g t)) = Some (fst (get_user_data u g t))"
  by (simp add: get_user_data_def select_insert_or_replace split: option.splits)

lemma fst_get_user_data:
  "fst (get_user_data u g t) = (case select_row (u, g) t of Some r \<Rightarrow> r | None \<Rightarrow> default_progress)"
  by (simp add: get_user_data_def split: option.splits)

section \<open>Facts about the rollover loop\<close>

lemma loop_converges:
  "xp (fst (add_xp_manual_loop d up)) < xp_for_next_level (level (fst (add_xp_manual_loop d up)))"
proof (induction d up rule: add_xp_manual_loop.induct)
  case (1 d up)
  show ?case
  proof (cases "xp d \<ge> xp_for_next_level (level d)")
    case True
    with 1 show ?thesis by (simp add: add_xp_manual_loop.simps [of d up])
  next
    case False
    then show ?thesis by (simp add: add_xp_manual_loop.simps [of d up])
  qed
qed

lemma loop_idle:
  "xp d < xp_for_next_level (level d) \<Longrightarrow> add_xp_manual_loop d up = (d, up)"
  by (simp add: add_xp_manual_loop.simps [of d up])

lemma loop_flag_irrelevant:
  "fst (add_xp_manual_loop d up) = fst (add_xp_manual_loop d up')"
proof (induction d up arbitrary: up' rule: add_xp_manual_loop.induct)
  case (1 d up)
  show ?case
  proof (cases "xp d \<ge> xp_for_next_level (level d)")
    case True
    then show ?thesis
      by (simp add: add_xp_manual_loop.simps [of d up] add_xp_manual_loop.simps [of d up'])
  next
    case False
    then show ?thesis
      by (simp add: add_xp_manual_loop.simps [of d up] add_xp_manual_loop.simps [of d up'])
  qed
qed

lemma loop_accumulates:
  "0 \<le> b \<Longrightarrow>
   fst (add_xp_manual_loop ((fst (add_xp_manual_loop d up))\<lparr>xp := xp (fst (add_xp_manual_loop d up)) + b\<rparr>) up')
     = fst (add_xp_manual_loop (d\<lparr>xp := xp d + b\<rparr>) up')"
proof (induction d up rule: add_xp_manual_loop.induct)
  case (1 d up)
  show ?case
  proof (cases "xp d \<ge> xp_for_next_level (level d)")
    case True
    let ?d' = "\<lparr>xp = xp d - xp_for_next_level (level d), level = level d + 1\<rparr>"
    have "fst (add_xp_manual_loop (d\<lparr>xp := xp d + b\<rparr>) up')
          = fst (add_xp_manual_loop (?d'\<lparr>xp := xp ?d' + b\<rparr>) True)"
      using True "1.prems"
      by (subst add_xp_manual_loop.simps) (simp add: algebra_simps)
    also have "\<dots> = fst (add_xp_manual_loop (?d'\<lparr>xp := xp ?d' + b\<rparr>) up')"
      by (rule loop_flag_irrelevant)
    finally show ?thesis
      using True 1 by (simp add: add_xp_manual_loop.simps [of d up])
  next
    case False
    then show ?thesis by (simp add: add_xp_manual_loop.simps [of d up])
  qed
qed

lemma progress_eta: "\<lparr>xp = xp (d::progress), level = level d\<rparr> = d"
  by simp

lemma fits_default: "fits default_progress"
  by (simp add: fits_def sqlite_int_def default_progress_def)

lemma update_user_data_eq:
  "update_user_data u g (xp d) (level d) t =
     (if fits d then Inr (update_row (u, g) d t) else Inl OverflowError)"
  by (simp add: update_user_data_def fits_def progress_eta)

lemma add_xp_manual_eq:
  "add_xp_manual u g a t =
     (if fits (fst (add_xp_manual_loop ((fst (get_user_data u g t))\<lparr>xp := xp (fst (get_user_data u g t)) + a\<rparr>) False))
      then (Inr (snd (add_xp_manual_loop ((fst (get_user_data u g t))\<lparr>xp := xp (fst (get_user_data u g t)) + a\<rparr>) False),
                 level (fst (add_xp_manual_loop ((fst (get_user_data u g t))\<lparr>xp := xp (fst (get_user_data u g t)) + a\<rparr>) False))),
            update_row (u, g)
              (fst (add_xp_manual_loop ((fst (get_user_data u g t))\<lparr>xp := xp (fst (get_user_data u g t)) + a\<rparr>) False))
              (snd (get_user_data u g t)))
      else (Inl OverflowError, snd (get_user_data u g t)))"
  by (simp add: add_xp_manual_def update_user_data_eq Let_def case_prod_beta)

lemma add_xp_manual_isl:
  "isl (fst (add_xp_manual u g a t))
     = (\<not> fits (fst (add_xp_manual_loop ((fst (get_user_data u g t))\<lparr>xp := xp (fst (get_user_data u g t)) + a\<rparr>) False)))"
  by (simp add: add_xp_manual_eq)

lemma add_xp_manual_store:
  "snd (add_xp_manual u g a t)
     = (if isl (fst (add_xp_manual u g a t)) then snd (get_user_data u g t)
        else update_row (u, g)
          (fst (add_xp_manual_loop ((fst (get_user_data u g t))\<lparr>xp := xp (fst (get_user_data u g t)) + a\<rparr>) False))
          (snd (get_user_data u g t)))"
  by (simp add: add_xp_manual_eq)

lemma remove_user_xp_eq:
  "remove_user_xp u g a t =
     (if fits ((fst (get_user_data u g t))\<lparr>xp := max 0 (xp (fst (get_user_data u g t)) - a)\<rparr>)
      then (Inr (max 0 (xp (fst (get_user_data u g t)) - a)),
            update_row (u, g) ((fst (get_user_data u g t))\<lparr>xp := max 0 (xp (fst (get_user_data u g t)) - a)\<rparr>)
              (snd (get_user_data u g t)))
      else (Inl OverflowError, snd (get_user_data u g t)))"
  by (simp add: remove_user_xp_def update_user_data_eq Let_def case_prod_beta)

lemma update_row_twice: "update_row k v2 (update_row k v1 t) = update_row k v2 t"
  by (induction t) (auto simp: update_row_def)

lemma get_user_data_update_row:
  "select_row (u, g) t \<noteq> None \<Longrightarrow>
   get_user_data u g (update_row (u, g) v t) = (v, update_row (u, g) v t)"
  by (simp add: get_user_data_def select_update_row)

lemma select_snd_get_user_data: "select_row (u, g) (snd (get_user_data u g t)) \<noteq> None"
  by (simp add: select_get_user_data)

lemma get_user_data_again:
  "get_user_data u g (snd (get_user_data u g t)) = get_user_data u g t"
  by (simp add: get_user_data_def select_insert_or_replace split: option.splits)

section \<open>Facts about the event path\<close>

lemma add_xp_eq:
  "add_xp u g a w =
     (if fits (fst (add_xp_check ((fst (get_user_data u g (xp_data w)))\<lparr>xp := xp (fst (get_user_data u g (xp_data w))) + a\<rparr>)))
      then (Inr (snd (add_xp_check ((fst (get_user_data u g (xp_data w)))\<lparr>xp := xp (fst (get_user_data u g (xp_data w))) + a\<rparr>)),
                 level (fst (add_xp_check ((fst (get_user_data u g (xp_data w)))\<lparr>xp := xp (fst (get_user_data u g (xp_data w))) + a\<rparr>)))),
            w\<lparr>xp_data := update_row (u, g)
                 (fst (add_xp_check ((fst (get_user_data u g (xp_data w)))\<lparr>xp := xp (fst (get_user_data u g (xp_data w))) + a\<rparr>)))
                 (snd (get_user_data u g (xp_data w))),
              created_tasks := created_tasks w @ [g]\<rparr>)
      else (Inl OverflowError, w\<lparr>xp_data := snd (get_user_data u g (xp_data w))\<rparr>))"
  by (simp add: add_xp_def update_user_data_eq Let_def case_prod_beta)

lemma add_xp_isl:
  "isl (fst (add_xp u g a w))
     = (\<not> fits (fst (add_xp_check ((fst (get_user_data u g (xp_data w)))\<lparr>xp := xp (fst (get_user_data u g (xp_data w))) + a\<rparr>))))"
  by (simp add: add_xp_eq)

lemma add_xp_store:
  "xp_data (snd (add_xp u g a w))
     = (if isl (fst (add_xp u g a w)) then snd (get_user_data u g (xp_data w))
        else update_row (u, g)
          (fst (add_xp_check ((fst (get_user_data u g (xp_data w)))\<lparr>xp := xp (fst (get_user_data u g (xp_data w))) + a\<rparr>)))
          (snd (get_user_data u g (xp_data w))))"
  by (simp add: add_xp_eq)

lemma add_xp_other_fields:
  "cooldowns (snd (add_xp u g a w)) = cooldowns w"
  "last_top_user (snd (add_xp u g a w)) = last_top_user w"
  "reward_roles (snd (add_xp u g a w)) = reward_roles w"
  by (simp_all add: add_xp_eq)

lemma add_xp_outcome_depends_on_row:
  "select_row (u, g) (xp_data w') = select_row (u, g) (xp_data w)
   \<Longrightarrow> fst (add_xp u g a w') = fst (add_xp u g a w)"
  by (simp add: add_xp_eq fst_get_user_data)

lemma xp_data_record_grant: "xp_data (record_grant k now w) = xp_data w"
  by (simp add: record_grant_def)

lemma cooldowns_record_grant: "cooldowns (record_grant k now w) = (cooldowns w)(k \<mapsto> now)"
  by (simp add: record_grant_def)

section \<open>The invariant holds in every reachable state\<close>

lemma store_ok_select: "store_ok t \<Longrightarrow> select_row k t = Some p \<Longrightarrow> row_ok p"
  unfolding store_ok_def select_row_def
  by (induction t) (auto split: if_splits)

lemma store_ok_get_user_data:
  "store_ok t \<Longrightarrow> store_ok (snd (get_user_data u g t)) \<and> row_ok (fst (get_user_data u g t))"
  using store_ok_select [of t "(u, g)"]
  by (auto simp: get_user_data_def insert_or_replace_def store_ok_def row_ok_def default_progress_def
      fits_def sqlite_int_def xp_for_next_level_def LEVEL_MULTIPLIER_def list_all_iff
      split: option.splits)

lemma store_ok_update_row: "store_ok t \<Longrightarrow> row_ok v \<Longrightarrow> store_ok (update_row k v t)"
  by (auto simp: store_ok_def update_row_def list_all_iff)

lemma store_ok_delete_row: "store_ok t \<Longrightarrow> store_ok (delete_row k t)"
  by (auto simp: store_ok_def delete_row_def list_all_iff)

lemma loop_level_mono: "level d \<le> level (fst (add_xp_manual_loop d up))"
proof (induction d up rule: add_xp_manual_loop.induct)
  case (1 d up)
  show ?case
  proof (cases "xp d \<ge> xp_for_next_level (level d)")
    case True
    with 1 show ?thesis by (simp add: add_xp_manual_loop.simps [of d up])
  next
    case False
    then show ?thesis by (simp add: add_xp_manual_loop.simps [of d up])
  qed
qed

lemma event_gain_within_one_level:
  "row_ok p \<Longrightarrow> gain \<le> 15 \<Longrightarrow>
   xp p + gain < xp_for_next_level (level p) + xp_for_next_level (level p + 1)"
  by (simp add: row_ok_def xp_for_next_level_def LEVEL_MULTIPLIER_def)

lemma store_ok_add_xp:
  assumes "store_ok (xp_data w)" "gain \<le> 15"
  shows "store_ok (xp_data (snd (add_xp u g gain w)))"
proof (cases "isl (fst (add_xp u g gain w))")
  case True
  then show ?thesis
    using store_ok_get_user_data [OF assms(1)] by (simp add: add_xp_store)
next
  case False
  let ?p = "fst (get_user_data u g (xp_data w))"
  have p: "row_ok ?p" and t: "store_ok (snd (get_user_data u g (xp_data w)))"
    using store_ok_get_user_data [OF assms(1)] by simp_all
  have f: "fits (fst (add_xp_check (?p\<lparr>xp := xp ?p + gain\<rparr>)))"
    using False by (simp add: add_xp_isl)
  have "row_ok (fst (add_xp_check (?p\<lparr>xp := xp ?p + gain\<rparr>)))"
    using p assms(2) f
    by (auto simp: row_ok_def add_xp_check_def xp_for_next_level_def LEVEL_MULTIPLIER_def
        split: if_splits)
  with False t show ?thesis
    by (simp add: add_xp_store store_ok_update_row)
qed

lemma store_ok_add_xp_manual:
  assumes "store_ok t"
  shows "store_ok (snd (add_xp_manual u g amount t))"
proof (cases "isl (fst (add_xp_manual u g amount t))")
  case True
  then show ?thesis
    using store_ok_get_user_data [OF assms] by (simp add: add_xp_manual_store)
next
  case False
  let ?p = "fst (get_user_data u g t)"
  have p: "row_ok ?p" and t: "store_ok (snd (get_user_data u g t))"
    using store_ok_get_user_data [OF assms] by simp_all
  have f: "fits (fst (add_xp_manual_loop (?p\<lparr>xp := xp ?p + amount\<rparr>) False))"
    using False by (simp add: add_xp_manual_isl)
  have "1 \<le> level (fst (add_xp_manual_loop (?p\<lparr>xp := xp ?p + amount\<rparr>) False))"
    using loop_level_mono [of "?p\<lparr>xp := xp ?p + amount\<rparr>" False] p
    by (simp add: row_ok_def)
  with f have "row_ok (fst (add_xp_manual_loop (?p\<lparr>xp := xp ?p + amount\<rparr>) False))"
    by (simp add: row_ok_def loop_converges)
  with False t show ?thesis
    by (simp add: add_xp_manual_store store_ok_update_row)
qed

lemma store_ok_on_message:
  "store_ok (xp_data w) \<Longrightarrow> gain \<le> 15
   \<Longrightarrow> store_ok (xp_data (on_message guild u is_bot now gain w))"
  using store_ok_add_xp [of w gain u]
  by (auto simp: on_message_def xp_data_record_grant split: option.splits sum.splits prod.splits)
     (metis snd_conv)+

lemma store_ok_reaction_step:
  assumes "store_ok (xp_data w)" "a \<le> 15"
  shows "store_ok (xp_data (snd
           (case add_xp v k a w of
              (Inl e, w') \<Rightarrow> (True, w')
            | (Inr r, w') \<Rightarrow> (False, record_grant key now w'))))"
  using store_ok_add_xp [OF assms, of v k]
  by (cases "add_xp v k a w") (auto simp: xp_data_record_grant split: sum.splits)

lemma store_ok_author_step:
  assumes "store_ok (xp_data w)" "a \<le> 15"
  shows "store_ok (xp_data
           (case add_xp v k a w of
              (Inl e, w') \<Rightarrow> w'
            | (Inr r, w') \<Rightarrow> record_grant key now w'))"
  using store_ok_add_xp [OF assms, of v k]
  by (cases "add_xp v k a w") (auto simp: xp_data_record_grant split: sum.splits)

lemma store_ok_on_reaction_add:
  assumes "store_ok (xp_data w)" "gain_user \<le> 15" "gain_author \<le> 15"
  shows "store_ok (xp_data (on_reaction_add guild u is_bot author now gain_user gain_author w))"
  using assms(1) store_ok_reaction_step [OF assms(1,2)]
    store_ok_author_step [OF _ assms(3)]
  by (auto simp: on_reaction_add_def Let_def case_prod_beta split: option.splits)

lemma reachable_store_ok: "reachable w \<Longrightarrow> store_ok (xp_data w)"
proof (induction rule: reachable.induct)
  case boot
  then show ?case by (simp add: store_ok_def)
next
  case message
  then show ?case by (simp add: store_ok_on_message XP_PER_MESSAGE_def)
next
  case reaction
  then show ?case by (simp add: store_ok_on_reaction_add XP_PER_REACTION_def)
next
  case addxp
  then show ?case by (simp add: addxp_prefix_def store_ok_add_xp_manual)
next
  case removexp
  then show ?case by (simp add: removexp_prefix_def reset_user_xp_def store_ok_delete_row)
next
  case rank
  then show ?case by (simp add: store_ok_get_user_data)
next
  case other
  then show ?case by simp
qed

lemma reachable_row_ok: "reachable w \<Longrightarrow> row_ok (fst (get_user_data u g (xp_data w)))"
  using reachable_store_ok store_ok_get_user_data by blast

section \<open>Facts about the ranking queries\<close>

lemma filter_key_eq:
  assumes "mset ys = mset xs" "inj_on f (set xs)" "k \<in> set ys"
  shows "filter (\<lambda>x. f k = f x) ys = filter (\<lambda>x. f k = f x) xs"
proof -
  have s: "set ys = set xs" using assms(1) by (metis set_mset_mset)
  have a: "filter (\<lambda>x. f k = f x) ys = filter (\<lambda>x. k = x) ys"
    using assms s by (intro filter_cong) (auto dest: inj_onD)
  have b: "filter (\<lambda>x. f k = f x) xs = filter (\<lambda>x. k = x) xs"
    using assms s by (intro filter_cong) (auto dest: inj_onD)
  have "filter (\<lambda>x. k = x) ys = filter (\<lambda>x. k = x) xs"
    using assms(1) by (metis replicate_count_mset_eq_filter_eq)
  with a b show ?thesis by simp
qed

lemma sort_key_unique:
  assumes "mset ys = mset xs" "inj_on f (set xs)" "sorted (map f ys)"
  shows "sort_key f xs = ys"
  using assms(1) filter_key_eq [OF assms(1,2)] assms(3)
  by (rule properties_for_sort_key)

lemma sorted_leaderboard:
  "sorted (map rank_key (take n (order_by_rank (guild_rows g t))))"
  unfolding order_by_rank_def
  by (metis sorted_sort_key sorted_wrt_take take_map)

lemma top_is_head:
  "get_top_user_id g t = (case leaderboard_prefix g t of [] \<Rightarrow> None | r # _ \<Rightarrow> Some (fst r))"
  by (cases "order_by_rank (guild_rows g t)") (simp_all add: get_top_user_id_def leaderboard_prefix_def)

lemma rank_key_le:
  "rank_key r \<le> rank_key r' \<longleftrightarrow> level (snd r') < level (snd r) \<or> (level (snd r') = level (snd r) \<and> xp (snd r') \<le> xp (snd r))"
  by (auto simp: rank_key_def)

section \<open>Facts about the top user check\<close>

lemma remove_roles_fields:
  "xp_data (remove_roles g m r w) = xp_data w"
  "last_top_user (remove_roles g m r w) = last_top_user w"
  "reward_roles (remove_roles g m r w) = reward_roles w"
  "calls (remove_roles g m r w) = calls w @ [RemoveRoles g m r]"
  by (simp_all add: remove_roles_def Let_def split: option.splits)

lemma add_roles_fields:
  "xp_data (add_roles g m r w) = xp_data w"
  "last_top_user (add_roles g m r w) = last_top_user w"
  "reward_roles (add_roles g m r w) = reward_roles w"
  "calls (add_roles g m r w) = calls w @ [AddRoles g m r]"
  by (simp_all add: add_roles_def Let_def split: option.splits)

lemma check_xp_data: "xp_data (check_top_user_change g w) = xp_data w"
  by (simp add: check_top_user_change_def get_reward_role_id_def Let_def remove_roles_fields add_roles_fields
      split: option.splits)

lemma check_cache:
  "last_top_user (check_top_user_change g w) g =
     (case get_top_user_id g (xp_data w) of
        None \<Rightarrow> last_top_user w g
      | Some top_id \<Rightarrow> if top_id = 0 then last_top_user w g else Some top_id)"
  by (simp add: check_top_user_change_def get_reward_role_id_def Let_def remove_roles_fields add_roles_fields
      split: option.splits)

lemma check_calls:
  "\<exists>cs. calls (check_top_user_change g w) = calls w @ cs
     \<and> length (filter is_remove cs) \<le> 1 \<and> length (filter is_add cs) \<le> 1"
  by (simp add: check_top_user_change_def get_reward_role_id_def Let_def remove_roles_fields add_roles_fields
      is_remove_def is_add_def split: option.splits)

text \<open>A change of leader: one call to take the role from member 1, one to give it to
  member 2, and nothing more in a second check.\<close>

lemma leader_change_scenario:
  "calls (check_top_user_change 9 overtaken_world) = [RemoveRoles 9 1 77, AddRoles 9 2 77]
   \<and> last_top_user (check_top_user_change 9 overtaken_world) 9 = Some 2
   \<and> member_roles (check_top_user_change 9 overtaken_world) 9 1 = Some {}
   \<and> member_roles (check_top_user_change 9 overtaken_world) 9 2 = Some {77}
   \<and> calls (check_top_user_change 9 (check_top_user_change 9 overtaken_world))
       = [RemoveRoles 9 1 77, AddRoles 9 2 77]"
  by (simp add: check_top_user_change_def get_top_user_id_def order_by_rank_def guild_rows_def
      rank_key_def get_reward_role_id_def remove_roles_def add_roles_def overtaken_world_def
      start_world_def Let_def)

section \<open>Facts about the cooldown keys\<close>

lemma digit_inj:
  "i < 10 \<Longrightarrow> j < 10 \<Longrightarrow> ''0123456789'' ! i = ''0123456789'' ! j \<Longrightarrow> i = j"
proof -
  have "distinct ''0123456789''" by simp
  moreover assume "i < 10" "j < 10" "''0123456789'' ! i = ''0123456789'' ! j"
  ultimately show "i = j" by (simp add: nth_eq_iff_index_eq)
qed

lemma str_nat_nonempty: "str_nat n \<noteq> []"
  by (subst str_nat.simps) simp

lemma str_nat_digits: "set (str_nat n) \<subseteq> set ''0123456789''"
proof (induction n rule: str_nat.induct)
  case (1 n)
  have d: "\<And>i. i < 10 \<Longrightarrow> ''0123456789'' ! i \<in> set ''0123456789''"
    by (intro nth_mem) simp
  show ?case
  proof (cases "n < 10")
    case True
    then show ?thesis using d [of n] by (subst str_nat.simps) simp
  next
    case False
    then show ?thesis using 1 d [of "n mod 10"] by (subst str_nat.simps) simp
  qed
qed

lemma str_nat_inj: "str_nat n = str_nat m \<Longrightarrow> n = m"
proof (induction n arbitrary: m rule: str_nat.induct)
  case (1 n)
  show ?case
  proof (cases "n < 10")
    case n: True
    show ?thesis
    proof (cases "m < 10")
      case True
      with n "1.prems" show ?thesis
        by (simp add: str_nat.simps [of n] str_nat.simps [of m] digit_inj)
    next
      case False
      with n "1.prems" str_nat_nonempty [of "m div 10"] show ?thesis
        by (simp add: str_nat.simps [of n] str_nat.simps [of m] Cons_eq_append_conv)
    qed
  next
    case n: False
    show ?thesis
    proof (cases "m < 10")
      case True
      with n "1.prems" str_nat_nonempty [of "n div 10"] show ?thesis
        by (simp add: str_nat.simps [of n] str_nat.simps [of m] append_eq_Cons_conv)
    next
      case False
      with n "1.prems" have e: "str_nat (n div 10) = str_nat (m div 10)"
        and d: "''0123456789'' ! (n mod 10) = ''0123456789'' ! (m mod 10)"
        by (simp_all add: str_nat.simps [of n] str_nat.simps [of m])
      from "1.IH" [OF n e] have q: "n div 10 = m div 10" .
      have r: "n mod 10 = m mod 10"
        using d by (intro digit_inj) simp_all
      from q r show ?thesis
        by (metis div_mult_mod_eq)
    qed
  qed
qed

lemma str_nat_no_minus: "CHR ''-'' \<notin> set (str_nat n)"
  using str_nat_digits [of n] by auto

lemma str_int_inj: "str_int i = str_int j \<Longrightarrow> i = j"
proof -
  assume e: "str_int i = str_int j"
  have hd_neg: "\<And>n m. CHR ''-'' # str_nat n \<noteq> str_nat m"
    using str_nat_no_minus by (metis list.set_intros(1))
  show "i = j"
  proof (cases "i < 0")
    case i: True
    show ?thesis
    proof (cases "j < 0")
      case True
      with i e have "nat (- i) = nat (- j)"
        by (simp add: str_int_def str_nat_inj)
      with i True show ?thesis by simp
    next
      case False
      with i e hd_neg show ?thesis by (simp add: str_int_def)
    qed
  next
    case i: False
    show ?thesis
    proof (cases "j < 0")
      case True
      with i e hd_neg [of "nat (- j)" "nat i"] show ?thesis by (simp add: str_int_def)
    next
      case False
      with i e have "nat i = nat j"
        by (simp add: str_int_def str_nat_inj)
      with i False show ?thesis by simp
    qed
  qed
qed

lemma react_key_eq: "react_key a = react_key b \<longleftrightarrow> a = b"
  by (auto simp: react_key_def dest: str_int_inj)

lemma react_key_example: "react_key 1237 = StrKey ''react_1237'' \<and> react_key (-5) = StrKey ''react_-5''"
  by (simp add: react_key_def str_int_def str_nat.simps)

lemma select_get_user_data_other:
  "k \<noteq> (u, g) \<Longrightarrow> select_row k (snd (get_user_data u g t)) = select_row k t"
  by (simp add: get_user_data_def select_insert_or_replace split: option.splits)

lemma add_xp_other_row:
  "k \<noteq> (v, g) \<Longrightarrow> select_row k (xp_data (snd (add_xp v g a w))) = select_row k (xp_data w)"
  by (simp add: add_xp_store select_update_row select_get_user_data_other)

lemma last_grant_record_grant:
  "last_grant (record_grant k now w) k' = (if k' = k then now else last_grant w k')"
  by (simp add: last_grant_def record_grant_def)

lemma last_grant_add_xp: "last_grant (snd (add_xp u g a w)) k = last_grant w k"
  by (simp add: last_grant_def add_xp_other_fields)

lemma last_grant_start: "last_grant start_world k = 0"
  by (simp add: last_grant_def start_world_def)

lemma xp_data_start: "xp_data start_world = []"
  by (simp add: start_world_def)

lemma react_key_not_id: "react_key a \<noteq> IdKey x" "IdKey x \<noteq> react_key a"
  by (simp_all add: react_key_def)

text \<open>The handlers, with the outcome of \<^verbatim>\<open>add_xp\<close> as a condition.\<close>

lemma case_outcome:
  "(case p of (Inl e, w') \<Rightarrow> F w' | (Inr r, w') \<Rightarrow> G w')
     = (if isl (fst p) then F (snd p) else G (snd p))"
  by (cases p) (simp split: sum.splits)

lemma on_message_eq:
  "on_message (Some g) u False now gain w =
     (if eligible w (g, IdKey u) now XP_COOLDOWN
      then (if isl (fst (add_xp u g gain w)) then snd (add_xp u g gain w)
            else record_grant (g, IdKey u) now (snd (add_xp u g gain w)))
      else w)"
  by (simp add: on_message_def case_outcome)

lemma on_reaction_add_eq:
  "on_reaction_add (Some g) u False author now gu ga w =
     (if gated_raised g u now gu w then gated_grant g u now gu w
      else (case author of
              None \<Rightarrow> gated_grant g u now gu w
            | Some (a, ab) \<Rightarrow>
                if ab then gated_grant g u now gu w
                else gated_grant g a now ga (gated_grant g u now gu w)))"
  by (cases "add_xp u g gu w")
     (auto simp: on_reaction_add_def gated_grant_def gated_raised_def Let_def case_outcome
        split: option.splits sum.splits)

lemma on_reaction_add_bot: "on_reaction_add guild u True author now gu ga w = w"
  by (simp add: on_reaction_add_def split: option.splits)

lemma last_grant_gated_grant:
  "last_grant (gated_grant g k now a w) key =
     (if key = (g, react_key k) \<and> eligible w (g, react_key k) now REACTION_COOLDOWN
         \<and> \<not> isl (fst (add_xp k g a w))
      then now else last_grant w key)"
  by (simp add: gated_grant_def last_grant_record_grant last_grant_add_xp)

lemma row_gated_grant:
  "k \<noteq> u \<or> \<not> eligible w (g, react_key u) now REACTION_COOLDOWN
   \<Longrightarrow> select_row (u, g) (xp_data (gated_grant g k now a w)) = select_row (u, g) (xp_data w)"
proof (cases "k = u")
  case True
  moreover assume "k \<noteq> u \<or> \<not> eligible w (g, react_key u) now REACTION_COOLDOWN"
  ultimately show ?thesis by (simp add: gated_grant_def)
next
  case False
  then show ?thesis
    by (simp add: gated_grant_def xp_data_record_grant add_xp_other_row)
qed

lemma outcome_gated_grant:
  "k \<noteq> u \<Longrightarrow> fst (add_xp u g a' (gated_grant g k now a w)) = fst (add_xp u g a' w)"
  by (rule add_xp_outcome_depends_on_row) (simp add: row_gated_grant)

lemma blocked_gated_grant:
  "\<not> eligible w (g, react_key u) now REACTION_COOLDOWN
   \<Longrightarrow> \<not> eligible (gated_grant g k now a w) (g, react_key u) now REACTION_COOLDOWN"
  by (auto simp: eligible_def last_grant_gated_grant react_key_eq)

text \<open>A user who is not eligible keeps the row through a whole reaction event.\<close>

lemma blocked_row_unchanged:
  assumes "\<not> eligible w (g, react_key u) now REACTION_COOLDOWN"
  shows "select_row (u, g) (xp_data (on_reaction_add (Some g) r rb au now gr gau w))
           = select_row (u, g) (xp_data w)"
proof (cases rb)
  case True
  then show ?thesis by (simp add: on_reaction_add_bot)
next
  case False
  have one: "\<And>k a. select_row (u, g) (xp_data (gated_grant g k now a w)) = select_row (u, g) (xp_data w)"
    using assms by (simp add: row_gated_grant)
  have two: "\<And>k a k' a'. select_row (u, g) (xp_data (gated_grant g k' now a' (gated_grant g k now a w)))
      = select_row (u, g) (xp_data w)"
    using assms blocked_gated_grant [OF assms] by (simp add: row_gated_grant)
  show ?thesis
    using False by (simp add: on_reaction_add_eq one two split: option.splits)
qed

lemma reaction_keeps_message_keys:
  "last_grant (on_reaction_add (Some g) u ub author now gu ga w) (g, IdKey x)
     = last_grant w (g, IdKey x)"
proof (cases ub)
  case True
  then show ?thesis by (simp add: on_reaction_add_bot)
next
  case False
  then show ?thesis
    by (simp add: on_reaction_add_eq last_grant_gated_grant react_key_not_id split: option.splits)
qed

section \<open>A task that runs alone\<close>

text \<open>Three steps of one task, with no other task in between, are \<^verbatim>\<open>add_xp\<close>.\<close>

lemma task_alone:
  "run_schedule [0, 0, 0] [new_task u g a] w
     = ([\<lparr>task_user = u, task_guild = g, task_amount = a,
          task_pc = (case fst (add_xp u g a w) of Inl e \<Rightarrow> Raised e | Inr r \<Rightarrow> Finished r)\<rparr>],
        snd (add_xp u g a w))"
  by (cases "select_row (u, g) (xp_data w)")
     (simp_all add: grant_step_def new_task_def add_xp_def get_user_data_def
        update_user_data_def Let_def case_prod_beta)

section \<open>When a write fits the columns\<close>

lemma loop_bounds:
  "1 \<le> level d \<Longrightarrow> 0 \<le> xp d \<Longrightarrow>
   0 \<le> xp (fst (add_xp_manual_loop d up))
   \<and> xp (fst (add_xp_manual_loop d up)) \<le> xp d
   \<and> level (fst (add_xp_manual_loop d up)) + xp (fst (add_xp_manual_loop d up)) div 100
       \<le> level d + xp d div 100"
proof (induction d up rule: add_xp_manual_loop.induct)
  case (1 d up)
  show ?case
  proof (cases "xp d \<ge> xp_for_next_level (level d)")
    case True
    let ?d' = "\<lparr>xp = xp d - xp_for_next_level (level d), level = level d + 1\<rparr>"
    have ih: "0 \<le> xp (fst (add_xp_manual_loop ?d' True))
      \<and> xp (fst (add_xp_manual_loop ?d' True)) \<le> xp ?d'
      \<and> level (fst (add_xp_manual_loop ?d' True)) + xp (fst (add_xp_manual_loop ?d' True)) div 100
          \<le> level ?d' + xp ?d' div 100"
      using True "1.prems" by (intro "1.IH") simp_all
    have "xp ?d' \<le> xp d"
      using "1.prems" by (simp add: xp_for_next_level_def LEVEL_MULTIPLIER_def)
    moreover have "level ?d' + xp ?d' div 100 \<le> level d + xp d div 100"
      using "1.prems" by (simp add: xp_for_next_level_def LEVEL_MULTIPLIER_def)
    ultimately show ?thesis
      using ih True by (simp add: add_xp_manual_loop.simps [of d up])
  next
    case False
    with "1.prems" show ?thesis by (simp add: add_xp_manual_loop.simps [of d up])
  qed
qed

lemma loop_fits:
  assumes "1 \<le> level d" "level d < 2 ^ 62" "- (2 ^ 63) \<le> xp d" "xp d < 2 ^ 62"
  shows "fits (fst (add_xp_manual_loop d up))"
proof (cases "0 \<le> xp d")
  case True
  let ?r = "fst (add_xp_manual_loop d up)"
  from loop_bounds [OF assms(1) True, of up]
  have x0: "0 \<le> xp ?r" and x1: "xp ?r \<le> xp d"
    and l: "level ?r + xp ?r div 100 \<le> level d + xp d div 100"
    by simp_all
  have "0 \<le> xp ?r div 100"
    using x0 by simp
  moreover have "xp d div 100 \<le> xp d"
    using True by arith
  ultimately have "level ?r \<le> level d + xp d"
    using l by linarith
  with assms(2,4) have "level ?r < 2 ^ 63"
    by simp
  moreover have "level d \<le> level ?r"
    by (rule loop_level_mono)
  ultimately show ?thesis
    using assms(1,4) x0 x1 by (simp add: fits_def sqlite_int_def)
next
  case False
  with assms(1) have "xp d < xp_for_next_level (level d)"
    by (simp add: xp_for_next_level_def LEVEL_MULTIPLIER_def)
  then have "add_xp_manual_loop d up = (d, up)"
    by (rule loop_idle)
  with assms False show ?thesis
    by (simp add: fits_def sqlite_int_def)
qed

text \<open>Far from the ends of the range, neither path raises.\<close>

lemma add_xp_manual_returns:
  assumes "1 \<le> level (fst (get_user_data u g t))" "level (fst (get_user_data u g t)) < 2 ^ 62"
    and "- (2 ^ 63) \<le> xp (fst (get_user_data u g t)) + a"
    and "xp (fst (get_user_data u g t)) + a < 2 ^ 62"
  shows "\<not> isl (fst (add_xp_manual u g a t))"
  using loop_fits [of "(fst (get_user_data u g t))\<lparr>xp := xp (fst (get_user_data u g t)) + a\<rparr>" False] assms
  by (simp add: add_xp_manual_isl)

lemma add_xp_returns:
  assumes "1 \<le> level (fst (get_user_data u g (xp_data w)))"
    and "level (fst (get_user_data u g (xp_data w))) < 2 ^ 63 - 1"
    and "- (2 ^ 63) \<le> xp (fst (get_user_data u g (xp_data w))) + a"
    and "xp (fst (get_user_data u g (xp_data w))) + a < 2 ^ 63"
  shows "\<not> isl (fst (add_xp u g a w))"
  using assms
  by (simp add: add_xp_isl add_xp_check_def fits_def sqlite_int_def xp_for_next_level_def
      LEVEL_MULTIPLIER_def)

section \<open>Removing XP\<close>

text \<open>
  C8, counterexample. A row with -5 XP at level 1 (the row \<^verbatim>\<open>addxp\<close> with amount -5
  leaves for a new member) and the amount \<open>- 2 ^ 63 - 10\<close>: the clamped xp is
  \<open>2 ^ 63 + 5\<close>, the \<^verbatim>\<open>UPDATE\<close> raises \<^verbatim>\<open>OverflowError\<close>, nothing is returned and
  the row keeps its negative xp.
\<close>

theorem remove_user_xp_raises_outside_column_range:
  "remove_user_xp 1 1 (- (2 ^ 63) - 10) [((1, 1), \<lparr>xp = - 5, level = 1\<rparr>)]
     = (Inl OverflowError, [((1, 1), \<lparr>xp = - 5, level = 1\<rparr>)])
   \<and> select_row (1, 1) (snd (remove_user_xp 1 1 (- (2 ^ 63) - 10) [((1, 1), \<lparr>xp = - 5, level = 1\<rparr>)]))
     = Some \<lparr>xp = - 5, level = 1\<rparr>"
  by (simp add: remove_user_xp_eq get_user_data_def select_row_def fits_def sqlite_int_def)

text \<open>
  C8, amended. \<^verbatim>\<open>remove_user_xp\<close> is the reduce operation. Let \<open>p\<close> be the progress
  read (the stored row, or the default row when there was none). Whenever \<open>p\<close> with its
  xp replaced by \<open>max 0 (xp p - amount)\<close> fits the columns, that row is stored: its xp is
  not negative and is the value returned, its level is the level of \<open>p\<close>. For a row that
  fits this is so for every amount that is not negative, and for every negative amount with
  \<open>xp p - amount < 2 ^ 63\<close>. Otherwise \<^verbatim>\<open>OverflowError\<close> is raised and the row stays
  as read. In every case the level stored is the level of \<open>p\<close>.
\<close>

theorem remove_user_xp_clamps_and_keeps_level:
  "(fits ((fst (get_user_data u g t))\<lparr>xp := max 0 (xp (fst (get_user_data u g t)) - amount)\<rparr>)
      \<longrightarrow> (\<exists>q. select_row (u, g) (snd (remove_user_xp u g amount t)) = Some q
            \<and> 0 \<le> xp q
            \<and> xp q = max 0 (xp (fst (get_user_data u g t)) - amount)
            \<and> level q = level (fst (get_user_data u g t))
            \<and> fst (remove_user_xp u g amount t) = Inr (xp q)))
   \<and> (\<not> fits ((fst (get_user_data u g t))\<lparr>xp := max 0 (xp (fst (get_user_data u g t)) - amount)\<rparr>)
      \<longrightarrow> fst (remove_user_xp u g amount t) = Inl OverflowError
          \<and> select_row (u, g) (snd (remove_user_xp u g amount t)) = Some (fst (get_user_data u g t)))
   \<and> (\<exists>q. select_row (u, g) (snd (remove_user_xp u g amount t)) = Some q
          \<and> level q = level (fst (get_user_data u g t)))
   \<and> (fits (fst (get_user_data u g t))
        \<and> (0 \<le> amount \<or> xp (fst (get_user_data u g t)) - amount < 2 ^ 63)
      \<longrightarrow> fits ((fst (get_user_data u g t))\<lparr>xp := max 0 (xp (fst (get_user_data u g t)) - amount)\<rparr>))"
proof (intro conjI impI)
  assume "fits ((fst (get_user_data u g t))\<lparr>xp := max 0 (xp (fst (get_user_data u g t)) - amount)\<rparr>)"
  then show "\<exists>q. select_row (u, g) (snd (remove_user_xp u g amount t)) = Some q
            \<and> 0 \<le> xp q
            \<and> xp q = max 0 (xp (fst (get_user_data u g t)) - amount)
            \<and> level q = level (fst (get_user_data u g t))
            \<and> fst (remove_user_xp u g amount t) = Inr (xp q)"
    by (simp add: remove_user_xp_eq select_update_row select_get_user_data)
next
  assume "\<not> fits ((fst (get_user_data u g t))\<lparr>xp := max 0 (xp (fst (get_user_data u g t)) - amount)\<rparr>)"
  then show "fst (remove_user_xp u g amount t) = Inl OverflowError"
    and "select_row (u, g) (snd (remove_user_xp u g amount t)) = Some (fst (get_user_data u g t))"
    by (simp_all add: remove_user_xp_eq select_get_user_data)
next
  show "\<exists>q. select_row (u, g) (snd (remove_user_xp u g amount t)) = Some q
          \<and> level q = level (fst (get_user_data u g t))"
    by (simp add: remove_user_xp_eq select_update_row select_get_user_data)
next
  assume "fits (fst (get_user_data u g t))
        \<and> (0 \<le> amount \<or> xp (fst (get_user_data u g t)) - amount < 2 ^ 63)"
  then show "fits ((fst (get_user_data u g t))\<lparr>xp := max 0 (xp (fst (get_user_data u g t)) - amount)\<rparr>)"
    by (auto simp: fits_def sqlite_int_def)
qed

text \<open>Taking 10 XP from a member stored with 50 XP at level 2.\<close>

theorem remove_user_xp_clamps_and_keeps_level_witness:
  "fits ((fst (get_user_data 1 1 [((1, 1), \<lparr>xp = 50, level = 2\<rparr>)]))
          \<lparr>xp := max 0 (xp (fst (get_user_data 1 1 [((1, 1), \<lparr>xp = 50, level = 2\<rparr>)])) - 10)\<rparr>)
   \<and> (\<exists>q. select_row (1, 1) (snd (remove_user_xp 1 1 10 [((1, 1), \<lparr>xp = 50, level = 2\<rparr>)])) = Some q
          \<and> 0 \<le> xp q
          \<and> xp q = max 0 (xp (fst (get_user_data 1 1 [((1, 1), \<lparr>xp = 50, level = 2\<rparr>)])) - 10)
          \<and> level q = level (fst (get_user_data 1 1 [((1, 1), \<lparr>xp = 50, level = 2\<rparr>)]))
          \<and> fst (remove_user_xp 1 1 10 [((1, 1), \<lparr>xp = 50, level = 2\<rparr>)]) = Inr (xp q))
   \<and> fst (get_user_data 1 1 [((1, 1), \<lparr>xp = 50, level = 2\<rparr>)]) = \<lparr>xp = 50, level = 2\<rparr>"
proof -
  let ?t = "[((1, 1), \<lparr>xp = 50, level = 2\<rparr>)]"
  have p: "fst (get_user_data 1 1 ?t) = \<lparr>xp = 50, level = 2\<rparr>"
    by (simp add: get_user_data_def select_row_def)
  have f: "fits ((fst (get_user_data 1 1 ?t))\<lparr>xp := max 0 (xp (fst (get_user_data 1 1 ?t)) - 10)\<rparr>)"
    by (simp add: p fits_def sqlite_int_def)
  from remove_user_xp_clamps_and_keeps_level [of 1 1 ?t 10] f p show ?thesis
    by blast
qed

text \<open>
  C1. The command \<^verbatim>\<open>removexp\<close> does not call \<^verbatim>\<open>remove_user_xp\<close>: it calls
  \<^verbatim>\<open>reset_user_xp\<close> and ignores its amount. For an admin taking 10 XP from a member
  stored with 50 XP at level 2, the row is deleted, where \<^verbatim>\<open>remove_user_xp\<close> on the
  same store leaves 40 XP at level 2.
\<close>

theorem removexp_prefix_deletes_row:
  "removexp_prefix True 1 1 10 [((1, 1), \<lparr>xp = 50, level = 2\<rparr>)] = []
   \<and> select_row (1, 1) (removexp_prefix True 1 1 10 [((1, 1), \<lparr>xp = 50, level = 2\<rparr>)]) = None
   \<and> remove_user_xp 1 1 10 [((1, 1), \<lparr>xp = 50, level = 2\<rparr>)]
       = (Inr 40, [((1, 1), \<lparr>xp = 40, level = 2\<rparr>)])"
  by (simp add: removexp_prefix_def reset_user_xp_def delete_row_def remove_user_xp_eq
      get_user_data_def select_row_def update_row_def fits_def sqlite_int_def)

section \<open>Cooldown of message XP\<close>

text \<open>
  C7. With the message cooldown of 60 seconds and a last grant at time 0 (recorded, or
  taken as the default of a key never recorded), a message at time 59 is not eligible and
  leaves the state as it is, and a message at time 60 is eligible: it calls \<^verbatim>\<open>add_xp\<close>
  and, when that has returned, records time 60.
\<close>

theorem message_cooldown_boundary:
  "last_grant w (g, IdKey u) = 0 \<Longrightarrow>
     \<not> eligible w (g, IdKey u) 59 XP_COOLDOWN
     \<and> eligible w (g, IdKey u) 60 XP_COOLDOWN
     \<and> on_message (Some g) u False 59 gain w = w
     \<and> on_message (Some g) u False 60 gain w
         = (if isl (fst (add_xp u g gain w)) then snd (add_xp u g gain w)
            else record_grant (g, IdKey u) 60 (snd (add_xp u g gain w)))"
  by (cases "add_xp u g gain w")
     (auto simp: eligible_def XP_COOLDOWN_def on_message_def split: sum.splits)

theorem message_cooldown_boundary_witness:
  "last_grant (record_grant (1, IdKey 7) 0 start_world) (1, IdKey 7) = 0
   \<and> \<not> eligible (record_grant (1, IdKey 7) 0 start_world) (1, IdKey 7) 59 XP_COOLDOWN
   \<and> eligible (record_grant (1, IdKey 7) 0 start_world) (1, IdKey 7) 60 XP_COOLDOWN
   \<and> on_message (Some 1) 7 False 59 10 (record_grant (1, IdKey 7) 0 start_world)
       = record_grant (1, IdKey 7) 0 start_world"
proof -
  have h: "last_grant (record_grant (1, IdKey 7) 0 start_world) (1, IdKey 7) = 0"
    by (simp add: last_grant_def record_grant_def)
  show ?thesis
    using h message_cooldown_boundary [OF h, of 10] by simp
qed

section \<open>Granting XP\<close>

text \<open>
  C2, counterexample. On a row with 0 XP at level 1, \<^verbatim>\<open>add_xp\<close> with amount 350 checks
  the threshold once and stores 250 XP at level 2, which is not below the threshold 200 of
  level 2; \<^verbatim>\<open>add_xp_manual\<close> on the same row stores 50 XP at level 3.
\<close>

theorem add_xp_single_check_leaves_overflow:
  "select_row (1, 1)
      (xp_data (snd (add_xp 1 1 350 (start_world\<lparr>xp_data := [((1, 1), \<lparr>xp = 0, level = 1\<rparr>)]\<rparr>))))
     = Some \<lparr>xp = 250, level = 2\<rparr>
   \<and> \<not> (250 < xp_for_next_level 2)
   \<and> select_row (1, 1) (snd (add_xp_manual 1 1 350 [((1, 1), \<lparr>xp = 0, level = 1\<rparr>)]))
     = Some \<lparr>xp = 50, level = 3\<rparr>"
  by (simp add: add_xp_eq add_xp_manual_eq add_xp_check_def get_user_data_def select_row_def
      update_row_def fits_def sqlite_int_def xp_for_next_level_def LEVEL_MULTIPLIER_def
      start_world_def add_xp_manual_loop.simps)

text \<open>
  C2, amended. The admin path \<^verbatim>\<open>add_xp_manual\<close> rolls over until the xp is below the
  threshold: whenever it returns, the row it leaves has \<^verbatim>\<open>xp < xp_for_next_level(level)\<close>,
  for every store, key and amount. The event path \<^verbatim>\<open>add_xp\<close> checks the threshold once;
  whenever it returns, the row it leaves has \<^verbatim>\<open>xp < xp_for_next_level(level)\<close> if the xp
  read plus the amount is below the sum of the thresholds of the level read and of the next
  level. On either path, when the xp or level computed does not fit the columns,
  \<^verbatim>\<open>OverflowError\<close> is raised and the row stays as read, so that a row read with
  \<^verbatim>\<open>xp < xp_for_next_level(level)\<close> is left with it in any case. (By
  \<open>event_gain_within_one_level\<close> and \<open>reachable_row_ok\<close> the bound of the event path
  holds for every gain the handlers draw, in every reachable state.)
\<close>

theorem grant_leaves_xp_below_threshold:
  "(\<not> isl (fst (add_xp_manual u g amount t))
      \<or> xp (fst (get_user_data u g t)) < xp_for_next_level (level (fst (get_user_data u g t)))
     \<longrightarrow> (\<exists>q. select_row (u, g) (snd (add_xp_manual u g amount t)) = Some q
            \<and> xp q < xp_for_next_level (level q)))
   \<and> (isl (fst (add_xp_manual u g amount t))
     \<longrightarrow> select_row (u, g) (snd (add_xp_manual u g amount t)) = Some (fst (get_user_data u g t)))
   \<and> (xp (fst (get_user_data u g (xp_data w))) + amount
        < xp_for_next_level (level (fst (get_user_data u g (xp_data w))))
          + xp_for_next_level (level (fst (get_user_data u g (xp_data w))) + 1)
      \<longrightarrow> \<not> isl (fst (add_xp u g amount w))
          \<or> xp (fst (get_user_data u g (xp_data w)))
              < xp_for_next_level (level (fst (get_user_data u g (xp_data w))))
      \<longrightarrow> (\<exists>q. select_row (u, g) (xp_data (snd (add_xp u g amount w))) = Some q
            \<and> xp q < xp_for_next_level (level q)))
   \<and> (isl (fst (add_xp u g amount w))
     \<longrightarrow> select_row (u, g) (xp_data (snd (add_xp u g amount w)))
           = Some (fst (get_user_data u g (xp_data w))))"
proof (intro conjI impI)
  assume "\<not> isl (fst (add_xp_manual u g amount t))
      \<or> xp (fst (get_user_data u g t)) < xp_for_next_level (level (fst (get_user_data u g t)))"
  then show "\<exists>q. select_row (u, g) (snd (add_xp_manual u g amount t)) = Some q
            \<and> xp q < xp_for_next_level (level q)"
    by (cases "isl (fst (add_xp_manual u g amount t))")
       (simp_all add: add_xp_manual_store select_update_row select_get_user_data loop_converges)
next
  assume "isl (fst (add_xp_manual u g amount t))"
  then show "select_row (u, g) (snd (add_xp_manual u g amount t)) = Some (fst (get_user_data u g t))"
    by (simp add: add_xp_manual_store select_get_user_data)
next
  assume h: "xp (fst (get_user_data u g (xp_data w))) + amount
        < xp_for_next_level (level (fst (get_user_data u g (xp_data w))))
          + xp_for_next_level (level (fst (get_user_data u g (xp_data w))) + 1)"
    and "\<not> isl (fst (add_xp u g amount w))
          \<or> xp (fst (get_user_data u g (xp_data w)))
              < xp_for_next_level (level (fst (get_user_data u g (xp_data w))))"
  then show "\<exists>q. select_row (u, g) (xp_data (snd (add_xp u g amount w))) = Some q
            \<and> xp q < xp_for_next_level (level q)"
    by (cases "isl (fst (add_xp u g amount w))")
       (simp_all add: add_xp_store select_update_row select_get_user_data add_xp_check_def)
next
  assume "isl (fst (add_xp u g amount w))"
  then show "select_row (u, g) (xp_data (snd (add_xp u g amount w)))
           = Some (fst (get_user_data u g (xp_data w)))"
    by (simp add: add_xp_store select_get_user_data)
qed

text \<open>The scenario of a user at 95 XP, level 1, who gains 20.\<close>

theorem grant_leaves_xp_below_threshold_witness:
  "xp (fst (get_user_data 1 1 (xp_data (start_world\<lparr>xp_data := [((1, 1), \<lparr>xp = 95, level = 1\<rparr>)]\<rparr>)))) + 20
     < xp_for_next_level (level (fst (get_user_data 1 1
          (xp_data (start_world\<lparr>xp_data := [((1, 1), \<lparr>xp = 95, level = 1\<rparr>)]\<rparr>)))))
       + xp_for_next_level (level (fst (get_user_data 1 1
          (xp_data (start_world\<lparr>xp_data := [((1, 1), \<lparr>xp = 95, level = 1\<rparr>)]\<rparr>)))) + 1)
   \<and> \<not> isl (fst (add_xp 1 1 20 (start_world\<lparr>xp_data := [((1, 1), \<lparr>xp = 95, level = 1\<rparr>)]\<rparr>)))
   \<and> \<not> isl (fst (add_xp_manual 1 1 20 [((1, 1), \<lparr>xp = 95, level = 1\<rparr>)]))
   \<and> (\<exists>q. select_row (1, 1)
          (xp_data (snd (add_xp 1 1 20 (start_world\<lparr>xp_data := [((1, 1), \<lparr>xp = 95, level = 1\<rparr>)]\<rparr>))))
          = Some q \<and> xp q < xp_for_next_level (level q))
   \<and> (\<exists>q. select_row (1, 1) (snd (add_xp_manual 1 1 20 [((1, 1), \<lparr>xp = 95, level = 1\<rparr>)])) = Some q
          \<and> xp q < xp_for_next_level (level q))"
proof -
  let ?t = "[((1, 1), \<lparr>xp = 95, level = 1\<rparr>)]"
  let ?w = "start_world\<lparr>xp_data := ?t\<rparr>"
  have p: "fst (get_user_data 1 1 ?t) = \<lparr>xp = 95, level = 1\<rparr>"
    by (simp add: get_user_data_def select_row_def)
  have x: "xp_data ?w = ?t"
    by (simp add: start_world_def)
  have h: "xp (fst (get_user_data 1 1 (xp_data ?w))) + 20
     < xp_for_next_level (level (fst (get_user_data 1 1 (xp_data ?w))))
       + xp_for_next_level (level (fst (get_user_data 1 1 (xp_data ?w))) + 1)"
    by (simp add: x p xp_for_next_level_def LEVEL_MULTIPLIER_def)
  have e: "\<not> isl (fst (add_xp 1 1 20 ?w))"
    by (rule add_xp_returns) (simp_all add: x p)
  have m: "\<not> isl (fst (add_xp_manual 1 1 20 ?t))"
    by (rule add_xp_manual_returns) (simp_all add: p)
  from grant_leaves_xp_below_threshold [of 1 1 20 ?t ?w] h e m show ?thesis
    by blast
qed

text \<open>
  C5, counterexample. On the event path, from 0 XP at level 1, \<^verbatim>\<open>add_xp\<close> with 100 and
  then with 200 stores 0 XP at level 3; \<^verbatim>\<open>add_xp\<close> with 300 at once stores 200 XP at
  level 2. On the admin path, from 0 XP at the last level of the column,
  \<open>2 ^ 63 - 1\<close>, \<^verbatim>\<open>add_xp_manual\<close> with 1 stores 1 XP, and the second part, one
  threshold of that level, raises \<^verbatim>\<open>OverflowError\<close> and leaves that row; the total at once
  raises as well and leaves 0 XP.
\<close>

theorem add_xp_split_differs_from_total:
  "select_row (1, 1) (xp_data (snd (add_xp 1 1 200 (snd (add_xp 1 1 100
       (start_world\<lparr>xp_data := [((1, 1), \<lparr>xp = 0, level = 1\<rparr>)]\<rparr>))))))
     = Some \<lparr>xp = 0, level = 3\<rparr>
   \<and> select_row (1, 1) (xp_data (snd (add_xp 1 1 300
       (start_world\<lparr>xp_data := [((1, 1), \<lparr>xp = 0, level = 1\<rparr>)]\<rparr>))))
     = Some \<lparr>xp = 200, level = 2\<rparr>
   \<and> snd (add_xp_manual 1 1 (100 * (2 ^ 63 - 1))
         (snd (add_xp_manual 1 1 1 [((1, 1), \<lparr>xp = 0, level = 2 ^ 63 - 1\<rparr>)])))
     = [((1, 1), \<lparr>xp = 1, level = 2 ^ 63 - 1\<rparr>)]
   \<and> add_xp_manual 1 1 (1 + 100 * (2 ^ 63 - 1)) [((1, 1), \<lparr>xp = 0, level = 2 ^ 63 - 1\<rparr>)]
     = (Inl OverflowError, [((1, 1), \<lparr>xp = 0, level = 2 ^ 63 - 1\<rparr>)])"
  by (simp add: add_xp_eq add_xp_manual_eq add_xp_check_def get_user_data_def select_row_def
      update_row_def fits_def sqlite_int_def xp_for_next_level_def LEVEL_MULTIPLIER_def
      start_world_def add_xp_manual_loop.simps)

text \<open>
  C5, amended. For a second part \<open>b \<ge> 0\<close> and grants that return (no
  \<^verbatim>\<open>OverflowError\<close> from the first part or from the total): two calls of
  \<^verbatim>\<open>add_xp_manual\<close> with \<open>a\<close> and then \<open>b\<close> leave the same table as one call with
  \<open>a + b\<close>, for every store and key, and the second call returns as well; two calls of
  \<^verbatim>\<open>add_xp\<close> leave the same table as one call with \<open>a + b\<close> whenever the xp read
  plus \<open>a + b\<close> is below the sum of the thresholds of the level read and of the next
  level. (By \<open>add_xp_manual_returns\<close> and \<open>add_xp_returns\<close> the grants return for
  every row and amount far from the ends of the column range.)
\<close>

theorem grant_split_equals_total:
  assumes "0 \<le> b"
  shows "(\<not> isl (fst (add_xp_manual u g a t)) \<and> \<not> isl (fst (add_xp_manual u g (a + b) t))
      \<longrightarrow> snd (add_xp_manual u g b (snd (add_xp_manual u g a t))) = snd (add_xp_manual u g (a + b) t)
          \<and> \<not> isl (fst (add_xp_manual u g b (snd (add_xp_manual u g a t)))))
   \<and> (xp (fst (get_user_data u g (xp_data w))) + (a + b)
        < xp_for_next_level (level (fst (get_user_data u g (xp_data w))))
          + xp_for_next_level (level (fst (get_user_data u g (xp_data w))) + 1)
       \<and> \<not> isl (fst (add_xp u g a w)) \<and> \<not> isl (fst (add_xp u g (a + b) w))
      \<longrightarrow> xp_data (snd (add_xp u g b (snd (add_xp u g a w)))) = xp_data (snd (add_xp u g (a + b) w))
          \<and> \<not> isl (fst (add_xp u g b (snd (add_xp u g a w)))))"
proof (intro conjI impI)
  let ?p = "fst (get_user_data u g t)"
  let ?r = "fst (add_xp_manual_loop (?p\<lparr>xp := xp ?p + a\<rparr>) False)"
  assume ok: "\<not> isl (fst (add_xp_manual u g a t)) \<and> \<not> isl (fst (add_xp_manual u g (a + b) t))"
  then have fa: "fits ?r"
    and ft: "fits (fst (add_xp_manual_loop (?p\<lparr>xp := xp ?p + (a + b)\<rparr>) False))"
    by (simp_all add: add_xp_manual_isl)
  have t1: "snd (add_xp_manual u g a t) = update_row (u, g) ?r (snd (get_user_data u g t))"
    using fa by (simp add: add_xp_manual_eq)
  have g1: "get_user_data u g (snd (add_xp_manual u g a t)) = (?r, snd (add_xp_manual u g a t))"
    unfolding t1 by (simp add: get_user_data_update_row select_snd_get_user_data)
  have acc: "fst (add_xp_manual_loop (?r\<lparr>xp := xp ?r + b\<rparr>) False)
      = fst (add_xp_manual_loop (?p\<lparr>xp := xp ?p + (a + b)\<rparr>) False)"
    using loop_accumulates [OF assms, of "?p\<lparr>xp := xp ?p + a\<rparr>" False False]
    by (simp add: algebra_simps)
  show "snd (add_xp_manual u g b (snd (add_xp_manual u g a t))) = snd (add_xp_manual u g (a + b) t)"
    using ft acc
    by (simp add: add_xp_manual_eq [of u g b] g1 add_xp_manual_eq [of u g "a + b"])
       (simp add: t1 update_row_twice)
  show "\<not> isl (fst (add_xp_manual u g b (snd (add_xp_manual u g a t))))"
    using ft acc by (simp add: add_xp_manual_isl [of u g b] g1)
next
  let ?p = "fst (get_user_data u g (xp_data w))"
  let ?r = "fst (add_xp_check (?p\<lparr>xp := xp ?p + a\<rparr>))"
  assume h: "xp ?p + (a + b) < xp_for_next_level (level ?p) + xp_for_next_level (level ?p + 1)
       \<and> \<not> isl (fst (add_xp u g a w)) \<and> \<not> isl (fst (add_xp u g (a + b) w))"
  then have fa: "fits ?r"
    and ft: "fits (fst (add_xp_check (?p\<lparr>xp := xp ?p + (a + b)\<rparr>)))"
    by (simp_all add: add_xp_isl)
  have t1: "xp_data (snd (add_xp u g a w)) = update_row (u, g) ?r (snd (get_user_data u g (xp_data w)))"
    using fa by (simp add: add_xp_eq)
  have g1: "get_user_data u g (xp_data (snd (add_xp u g a w))) = (?r, xp_data (snd (add_xp u g a w)))"
    unfolding t1 by (simp add: get_user_data_update_row select_snd_get_user_data)
  have acc: "fst (add_xp_check (?r\<lparr>xp := xp ?r + b\<rparr>)) = fst (add_xp_check (?p\<lparr>xp := xp ?p + (a + b)\<rparr>))"
    using h assms
    by (simp add: add_xp_check_def xp_for_next_level_def LEVEL_MULTIPLIER_def algebra_simps)
  show "xp_data (snd (add_xp u g b (snd (add_xp u g a w)))) = xp_data (snd (add_xp u g (a + b) w))"
    using ft acc
    by (simp add: add_xp_eq [of u g b] g1 add_xp_eq [of u g "a + b"])
       (simp add: t1 update_row_twice)
  show "\<not> isl (fst (add_xp u g b (snd (add_xp u g a w))))"
    using ft acc by (simp add: add_xp_isl [of u g b] g1)
qed

text \<open>A total of 350 split into 100 and 250 on the admin path, and 25 split into 15 and
  10 on the event path, from 90 XP at level 1.\<close>

theorem grant_split_equals_total_witness:
  "(0::int) \<le> 250
   \<and> \<not> isl (fst (add_xp_manual 1 1 100 [((1, 1), \<lparr>xp = 0, level = 1\<rparr>)]))
   \<and> \<not> isl (fst (add_xp_manual 1 1 (100 + 250) [((1, 1), \<lparr>xp = 0, level = 1\<rparr>)]))
   \<and> snd (add_xp_manual 1 1 250 (snd (add_xp_manual 1 1 100 [((1, 1), \<lparr>xp = 0, level = 1\<rparr>)])))
       = [((1, 1), \<lparr>xp = 50, level = 3\<rparr>)]
   \<and> snd (add_xp_manual 1 1 (100 + 250) [((1, 1), \<lparr>xp = 0, level = 1\<rparr>)])
       = [((1, 1), \<lparr>xp = 50, level = 3\<rparr>)]
   \<and> \<not> isl (fst (add_xp 1 1 15 (start_world\<lparr>xp_data := [((1, 1), \<lparr>xp = 90, level = 1\<rparr>)]\<rparr>)))
   \<and> \<not> isl (fst (add_xp 1 1 (15 + 10) (start_world\<lparr>xp_data := [((1, 1), \<lparr>xp = 90, level = 1\<rparr>)]\<rparr>)))
   \<and> xp_data (snd (add_xp 1 1 10 (snd (add_xp 1 1 15
         (start_world\<lparr>xp_data := [((1, 1), \<lparr>xp = 90, level = 1\<rparr>)]\<rparr>)))))
       = xp_data (snd (add_xp 1 1 (15 + 10)
         (start_world\<lparr>xp_data := [((1, 1), \<lparr>xp = 90, level = 1\<rparr>)]\<rparr>)))"
proof -
  let ?t = "[((1, 1), \<lparr>xp = 0, level = 1\<rparr>)]"
  let ?s = "[((1, 1), \<lparr>xp = 90, level = 1\<rparr>)]"
  let ?w = "start_world\<lparr>xp_data := ?s\<rparr>"
  have b: "(0::int) \<le> 250" and b': "(0::int) \<le> 10"
    by simp_all
  have pt: "fst (get_user_data 1 1 ?t) = \<lparr>xp = 0, level = 1\<rparr>"
    by (simp add: get_user_data_def select_row_def)
  have x: "xp_data ?w = ?s"
    by (simp add: start_world_def)
  have pw: "fst (get_user_data 1 1 ?s) = \<lparr>xp = 90, level = 1\<rparr>"
    by (simp add: get_user_data_def select_row_def)
  have m1: "\<not> isl (fst (add_xp_manual 1 1 100 ?t))"
    by (rule add_xp_manual_returns) (simp_all add: pt)
  have m2: "\<not> isl (fst (add_xp_manual 1 1 (100 + 250) ?t))"
    by (rule add_xp_manual_returns) (simp_all add: pt)
  have e1: "\<not> isl (fst (add_xp 1 1 15 ?w))"
    by (rule add_xp_returns) (simp_all add: x pw)
  have e2: "\<not> isl (fst (add_xp 1 1 (15 + 10) ?w))"
    by (rule add_xp_returns) (simp_all add: x pw)
  have h: "xp (fst (get_user_data 1 1 (xp_data ?w))) + (15 + 10)
     < xp_for_next_level (level (fst (get_user_data 1 1 (xp_data ?w))))
       + xp_for_next_level (level (fst (get_user_data 1 1 (xp_data ?w))) + 1)"
    by (simp add: x pw xp_for_next_level_def LEVEL_MULTIPLIER_def)
  have total: "snd (add_xp_manual 1 1 (100 + 250) ?t) = [((1, 1), \<lparr>xp = 50, level = 3\<rparr>)]"
    by (simp add: add_xp_manual_eq get_user_data_def select_row_def update_row_def fits_def
        sqlite_int_def xp_for_next_level_def LEVEL_MULTIPLIER_def add_xp_manual_loop.simps)
  from grant_split_equals_total
         [where u = 1 and g = 1 and a = 100 and b = 250 and t = ?t and w = ?w, OF b] m1 m2 total
  have m: "snd (add_xp_manual 1 1 250 (snd (add_xp_manual 1 1 100 ?t))) = [((1, 1), \<lparr>xp = 50, level = 3\<rparr>)]"
    by simp
  from grant_split_equals_total
         [where u = 1 and g = 1 and a = 15 and b = 10 and t = ?t and w = ?w, OF b'] h e1 e2
  have e: "xp_data (snd (add_xp 1 1 10 (snd (add_xp 1 1 15 ?w))))
       = xp_data (snd (add_xp 1 1 (15 + 10) ?w))"
    by blast
  show ?thesis using b m1 m2 total m e1 e2 e by simp
qed

section \<open>Negative amounts on the admin path\<close>

text \<open>
  C10, counterexample. \<^verbatim>\<open>addxp\<close> with the amount \<open>- 2 ^ 63 - 1\<close> for a member
  without a row: the \<^verbatim>\<open>UPDATE\<close> raises \<^verbatim>\<open>OverflowError\<close>, and the row is the default
  row, its xp not lowered.
\<close>

theorem addxp_below_column_range_raises:
  "add_xp_manual 1 1 (- (2 ^ 63) - 1) []
     = (Inl OverflowError, [((1, 1), \<lparr>xp = 0, level = 1\<rparr>)])
   \<and> select_row (1, 1) (addxp_prefix True 1 1 (- (2 ^ 63) - 1) []) = Some \<lparr>xp = 0, level = 1\<rparr>"
  by (simp add: addxp_prefix_def add_xp_manual_eq get_user_data_def select_row_def
      insert_or_replace_def default_progress_def fits_def sqlite_int_def xp_for_next_level_def
      LEVEL_MULTIPLIER_def add_xp_manual_loop.simps)

text \<open>
  C10, amended. \<^verbatim>\<open>addxp_prefix\<close> hands its amount to \<^verbatim>\<open>add_xp_manual\<close> unchecked.
  For a negative amount and a row that satisfies the invariant
  \<^verbatim>\<open>xp < xp_for_next_level(level)\<close> (by \<open>reachable_row_ok\<close> every row of a reachable
  state does; a missing row is read as the default row), the loop does not run. When the
  lowered row fits the columns (for a row that fits: when xp plus amount is at least
  \<open>- 2 ^ 63\<close>), no level-up is reported, the level stays, and the xp stored is the old xp
  minus the absolute value of the amount, which is negative as soon as the absolute value
  exceeds the old xp. Otherwise \<^verbatim>\<open>OverflowError\<close> is raised and the row stays as read.
\<close>

theorem addxp_negative_amount_lowers_xp:
  assumes "amount < 0"
    and "xp (fst (get_user_data u g t)) < xp_for_next_level (level (fst (get_user_data u g t)))"
  shows "add_xp_manual_loop ((fst (get_user_data u g t))\<lparr>xp := xp (fst (get_user_data u g t)) + amount\<rparr>) False
           = ((fst (get_user_data u g t))\<lparr>xp := xp (fst (get_user_data u g t)) + amount\<rparr>, False)
    \<and> (fits ((fst (get_user_data u g t))\<lparr>xp := xp (fst (get_user_data u g t)) + amount\<rparr>)
        \<longrightarrow> fst (add_xp_manual u g amount t) = Inr (False, level (fst (get_user_data u g t)))
          \<and> select_row (u, g) (addxp_prefix True u g amount t)
               = Some \<lparr>xp = xp (fst (get_user_data u g t)) - \<bar>amount\<bar>,
                       level = level (fst (get_user_data u g t))\<rparr>
          \<and> (xp (fst (get_user_data u g t)) < \<bar>amount\<bar>
              \<longrightarrow> (\<exists>q. select_row (u, g) (addxp_prefix True u g amount t) = Some q \<and> xp q < 0)))
    \<and> (\<not> fits ((fst (get_user_data u g t))\<lparr>xp := xp (fst (get_user_data u g t)) + amount\<rparr>)
        \<longrightarrow> fst (add_xp_manual u g amount t) = Inl OverflowError
          \<and> select_row (u, g) (addxp_prefix True u g amount t) = Some (fst (get_user_data u g t)))
    \<and> (fits (fst (get_user_data u g t)) \<and> - (2 ^ 63) \<le> xp (fst (get_user_data u g t)) + amount
        \<longrightarrow> fits ((fst (get_user_data u g t))\<lparr>xp := xp (fst (get_user_data u g t)) + amount\<rparr>))"
proof -
  let ?p = "fst (get_user_data u g t)"
  have idle: "add_xp_manual_loop (?p\<lparr>xp := xp ?p + amount\<rparr>) False = (?p\<lparr>xp := xp ?p + amount\<rparr>, False)"
    using assms by (intro loop_idle) simp
  have ok: "fits (?p\<lparr>xp := xp ?p + amount\<rparr>)
        \<longrightarrow> fst (add_xp_manual u g amount t) = Inr (False, level ?p)
          \<and> select_row (u, g) (addxp_prefix True u g amount t)
               = Some \<lparr>xp = xp ?p - \<bar>amount\<bar>, level = level ?p\<rparr>
          \<and> (xp ?p < \<bar>amount\<bar>
              \<longrightarrow> (\<exists>q. select_row (u, g) (addxp_prefix True u g amount t) = Some q \<and> xp q < 0))"
    using idle assms(1)
    by (simp add: addxp_prefix_def add_xp_manual_eq select_update_row select_get_user_data)
  have err: "\<not> fits (?p\<lparr>xp := xp ?p + amount\<rparr>)
        \<longrightarrow> fst (add_xp_manual u g amount t) = Inl OverflowError
          \<and> select_row (u, g) (addxp_prefix True u g amount t) = Some ?p"
    using idle by (simp add: addxp_prefix_def add_xp_manual_eq select_get_user_data)
  have rng: "fits ?p \<and> - (2 ^ 63) \<le> xp ?p + amount \<longrightarrow> fits (?p\<lparr>xp := xp ?p + amount\<rparr>)"
    using assms(1) by (simp add: fits_def sqlite_int_def)
  show ?thesis
    using idle ok err rng by blast
qed

text \<open>A member without a row, and the amount -5: the row stored is -5 XP at level 1.\<close>

theorem addxp_negative_amount_lowers_xp_witness:
  "(-5::int) < 0
   \<and> xp (fst (get_user_data 1 1 [])) < xp_for_next_level (level (fst (get_user_data 1 1 [])))
   \<and> fits ((fst (get_user_data 1 1 []))\<lparr>xp := xp (fst (get_user_data 1 1 [])) + (-5)\<rparr>)
   \<and> xp (fst (get_user_data 1 1 [])) < \<bar>-5\<bar>
   \<and> fst (add_xp_manual 1 1 (-5) []) = Inr (False, 1)
   \<and> select_row (1, 1) (addxp_prefix True 1 1 (-5) []) = Some \<lparr>xp = -5, level = 1\<rparr>
   \<and> (\<exists>q. select_row (1, 1) (addxp_prefix True 1 1 (-5) []) = Some q \<and> xp q < 0)"
proof -
  have a: "(-5::int) < 0" by simp
  have p: "fst (get_user_data 1 1 []) = \<lparr>xp = 0, level = 1\<rparr>"
    by (simp add: get_user_data_def select_row_def default_progress_def)
  have h: "xp (fst (get_user_data 1 1 [])) < xp_for_next_level (level (fst (get_user_data 1 1 [])))"
    by (simp add: p xp_for_next_level_def LEVEL_MULTIPLIER_def)
  have f: "fits ((fst (get_user_data 1 1 []))\<lparr>xp := xp (fst (get_user_data 1 1 [])) + (-5)\<rparr>)"
    by (simp add: p fits_def sqlite_int_def)
  from addxp_negative_amount_lowers_xp [OF a h] f p a h show ?thesis
    by simp
qed

section \<open>Leaderboard order\<close>

text \<open>
  C9. The queries order by level descending, then xp descending. When the rows of a guild
  are the three records (level 3, 50 XP), (level 3, 90 XP) and (level 5, 0 XP), in whatever
  storage order and whatever other guilds have stored, the leaderboard lists the level-5
  record, then level 3 with 90 XP, then level 3 with 50 XP, and the top user is the level-5
  user. (In general the rows come out sorted on \<open>rank_key\<close>, by \<open>sorted_leaderboard\<close>,
  and the top user is the first row of the leaderboard, by \<open>top_is_head\<close>.)
\<close>

theorem leaderboard_orders_by_level_then_xp:
  assumes "mset (guild_rows g t)
     = mset [((u1, g), \<lparr>xp = 50, level = 3\<rparr>), ((u2, g), \<lparr>xp = 90, level = 3\<rparr>),
             ((u3, g), \<lparr>xp = 0, level = 5\<rparr>)]"
  shows "leaderboard_prefix g t = [(u3, 0, 5), (u2, 90, 3), (u1, 50, 3)]
   \<and> get_top_user_id g t = Some u3"
proof -
  let ?ys = "[((u3, g), \<lparr>xp = 0, level = 5\<rparr>), ((u2, g), \<lparr>xp = 90, level = 3\<rparr>),
              ((u1, g), \<lparr>xp = 50, level = 3\<rparr>)]"
  have m: "mset ?ys = mset (guild_rows g t)"
    using assms by (simp add: add.commute add.left_commute)
  have "set_mset (mset (guild_rows g t))
      = {((u1, g), \<lparr>xp = 50, level = 3\<rparr>), ((u2, g), \<lparr>xp = 90, level = 3\<rparr>),
         ((u3, g), \<lparr>xp = 0, level = 5\<rparr>)}"
    unfolding assms by auto
  then have s: "set (guild_rows g t)
      = {((u1, g), \<lparr>xp = 50, level = 3\<rparr>), ((u2, g), \<lparr>xp = 90, level = 3\<rparr>),
         ((u3, g), \<lparr>xp = 0, level = 5\<rparr>)}"
    by simp
  have i: "inj_on rank_key (set (guild_rows g t))"
    unfolding s by (simp add: rank_key_def)
  have "sorted (map rank_key ?ys)"
    by (simp add: rank_key_def)
  with m i have "order_by_rank (guild_rows g t) = ?ys"
    unfolding order_by_rank_def by (intro sort_key_unique)
  then show ?thesis
    by (simp add: leaderboard_prefix_def get_top_user_id_def)
qed

text \<open>The three records in the order of the claim, between rows of another guild.\<close>

theorem leaderboard_orders_by_level_then_xp_witness:
  "leaderboard_prefix 1
      [((40, 2), \<lparr>xp = 70, level = 9\<rparr>), ((10, 1), \<lparr>xp = 50, level = 3\<rparr>),
       ((20, 1), \<lparr>xp = 90, level = 3\<rparr>), ((30, 1), \<lparr>xp = 0, level = 5\<rparr>),
       ((10, 2), \<lparr>xp = 5, level = 1\<rparr>)]
     = [(30, 0, 5), (20, 90, 3), (10, 50, 3)]
   \<and> get_top_user_id 1
      [((40, 2), \<lparr>xp = 70, level = 9\<rparr>), ((10, 1), \<lparr>xp = 50, level = 3\<rparr>),
       ((20, 1), \<lparr>xp = 90, level = 3\<rparr>), ((30, 1), \<lparr>xp = 0, level = 5\<rparr>),
       ((10, 2), \<lparr>xp = 5, level = 1\<rparr>)]
     = Some 30"
proof -
  let ?t = "[((40, 2), \<lparr>xp = 70, level = 9\<rparr>), ((10, 1), \<lparr>xp = 50, level = 3\<rparr>),
       ((20, 1), \<lparr>xp = 90, level = 3\<rparr>), ((30, 1), \<lparr>xp = 0, level = 5\<rparr>),
       ((10, 2), \<lparr>xp = 5, level = 1\<rparr>)]"
  have h: "mset (guild_rows 1 ?t)
     = mset [((10, 1), \<lparr>xp = 50, level = 3\<rparr>), ((20, 1), \<lparr>xp = 90, level = 3\<rparr>),
             ((30, 1), \<lparr>xp = 0, level = 5\<rparr>)]"
    by (simp add: guild_rows_def)
  from leaderboard_orders_by_level_then_xp [OF h] show ?thesis .
qed

section \<open>Checking the top user twice\<close>

text \<open>
  C6. Two calls of \<^verbatim>\<open>check_top_user_change\<close> for a guild, one after the other: the
  second call changes nothing at all (no role call, no role, no cache entry), because after
  the first call the cached leader is the detected leader or there is no leader. So all
  role calls of the two are those of the first, which makes one reassignment at most: at
  most one \<^verbatim>\<open>remove_roles\<close> and at most one \<^verbatim>\<open>add_roles\<close>. The table
  \<^verbatim>\<open>xp_data\<close> is not written by the check.
\<close>

theorem check_top_user_change_twice:
  "check_top_user_change g (check_top_user_change g w) = check_top_user_change g w
   \<and> calls (check_top_user_change g (check_top_user_change g w)) = calls (check_top_user_change g w)
   \<and> xp_data (check_top_user_change g w) = xp_data w
   \<and> (\<exists>cs. calls (check_top_user_change g w) = calls w @ cs
         \<and> length (filter is_remove cs) \<le> 1 \<and> length (filter is_add cs) \<le> 1)"
proof -
  have idem: "check_top_user_change g (check_top_user_change g w) = check_top_user_change g w"
  proof (cases "get_top_user_id g (xp_data w)")
    case None
    then show ?thesis by (simp add: check_top_user_change_def)
  next
    case (Some top_id)
    show ?thesis
    proof (cases "top_id = 0")
      case True
      with Some show ?thesis by (simp add: check_top_user_change_def)
    next
      case False
      have "last_top_user (check_top_user_change g w) g = Some top_id"
        using Some False by (simp add: check_cache)
      moreover have "get_top_user_id g (xp_data (check_top_user_change g w)) = Some top_id"
        using Some by (simp add: check_xp_data)
      ultimately show ?thesis
        using False by (simp add: check_top_user_change_def [of g "check_top_user_change g w"])
    qed
  qed
  then show ?thesis
    using check_calls [of g w] by (simp add: check_xp_data)
qed

section \<open>Cooldown of reaction XP\<close>

text \<open>
  C4, counterexample. User 7 reacts at time 100 and is granted XP as reactor. At time 101
  user 8 reacts to a message written by user 7: user 7 is not eligible as author, and the
  row of user 7 still holds the 10 XP of the first grant.
\<close>

theorem reactor_grant_blocks_author_grant:
  "select_row (7, 1) (xp_data (on_reaction_add (Some 1) 7 False None 100 10 10 start_world))
      = Some \<lparr>xp = 10, level = 1\<rparr>
   \<and> \<not> eligible (on_reaction_add (Some 1) 7 False None 100 10 10 start_world)
          (1, react_key 7) 101 REACTION_COOLDOWN
   \<and> select_row (7, 1) (xp_data (on_reaction_add (Some 1) 8 False (Some (7, False)) 101 10 10
         (on_reaction_add (Some 1) 7 False None 100 10 10 start_world)))
      = Some \<lparr>xp = 10, level = 1\<rparr>"
  by (simp add: on_reaction_add_eq gated_grant_def gated_raised_def eligible_def
      last_grant_record_grant last_grant_add_xp
      xp_data_record_grant add_xp_other_row add_xp_isl add_xp_store add_xp_check_def react_key_eq
      REACTION_COOLDOWN_def get_user_data_def select_row_def insert_or_replace_def update_row_def
      default_progress_def fits_def sqlite_int_def xp_for_next_level_def LEVEL_MULTIPLIER_def
      last_grant_start xp_data_start)

text \<open>
  C4, amended. Both grants of a reaction event are gated by the one key
  \<^verbatim>\<open>(guild, "react_<user id>")\<close> of the user concerned, whatever the role. Let user
  \<open>u\<close> be eligible under that key at time \<open>now\<close>, let \<open>now'\<close> be less than the
  reaction cooldown after \<open>now\<close>, and let the grants of the event at \<open>now\<close> return (no
  \<^verbatim>\<open>OverflowError\<close>). After an event at \<open>now\<close> in which \<open>u\<close> is the reactor,
  \<open>u\<close> is not eligible at \<open>now'\<close>, and an event at \<open>now'\<close> in which another user
  reacts to a message of \<open>u\<close> leaves the row of \<open>u\<close> as it is. The same holds with the
  roles exchanged: after an event at \<open>now\<close> in which another user reacts to a message of
  \<open>u\<close>, an event at \<open>now'\<close> in which \<open>u\<close> is the reactor leaves the row of
  \<open>u\<close> as it is. The key of message XP, \<^verbatim>\<open>(guild, user id)\<close>, is a different one:
  no reaction event changes the eligibility of a message.
\<close>

theorem reaction_roles_share_one_cooldown_key:
  "(eligible w (g, react_key u) now REACTION_COOLDOWN \<and> now' - now < REACTION_COOLDOWN \<and> v \<noteq> u
      \<and> \<not> isl (fst (add_xp u g gu w)) \<and> \<not> isl (fst (add_xp u g ga w))
      \<and> \<not> isl (fst (add_xp v g gv w))
     \<longrightarrow>
       \<not> eligible (on_reaction_add (Some g) u False author now gu ga w)
            (g, react_key u) now' REACTION_COOLDOWN
     \<and> select_row (u, g) (xp_data (on_reaction_add (Some g) v vb (Some (u, False)) now' gv' ga'
              (on_reaction_add (Some g) u False author now gu ga w)))
        = select_row (u, g) (xp_data (on_reaction_add (Some g) u False author now gu ga w))
     \<and> \<not> eligible (on_reaction_add (Some g) v False (Some (u, False)) now gv ga w)
            (g, react_key u) now' REACTION_COOLDOWN
     \<and> select_row (u, g) (xp_data (on_reaction_add (Some g) u False author' now' gu' ga''
              (on_reaction_add (Some g) v False (Some (u, False)) now gv ga w)))
        = select_row (u, g) (xp_data (on_reaction_add (Some g) v False (Some (u, False)) now gv ga w)))
   \<and> eligible (on_reaction_add (Some g) u ub author now gu ga w) (g, IdKey x) t d
        = eligible w (g, IdKey x) t d"
proof (intro conjI impI)
  assume h: "eligible w (g, react_key u) now REACTION_COOLDOWN \<and> now' - now < REACTION_COOLDOWN \<and> v \<noteq> u
      \<and> \<not> isl (fst (add_xp u g gu w)) \<and> \<not> isl (fst (add_xp u g ga w))
      \<and> \<not> isl (fst (add_xp v g gv w))"
  let ?w1 = "on_reaction_add (Some g) u False author now gu ga w"
  let ?w2 = "on_reaction_add (Some g) v False (Some (u, False)) now gv ga w"
  have c1: "last_grant ?w1 (g, react_key u) = now"
    using h
    by (simp add: on_reaction_add_eq gated_raised_def last_grant_gated_grant react_key_eq
        split: option.splits)
  have "eligible (gated_grant g v now gv w) (g, react_key u) now REACTION_COOLDOWN"
    using h by (simp add: eligible_def last_grant_gated_grant react_key_eq)
  then have c2: "last_grant ?w2 (g, react_key u) = now"
    using h
    by (simp add: on_reaction_add_eq gated_raised_def last_grant_gated_grant outcome_gated_grant)
  have b1: "\<not> eligible ?w1 (g, react_key u) now' REACTION_COOLDOWN"
    using h c1 by (simp add: eligible_def)
  have b2: "\<not> eligible ?w2 (g, react_key u) now' REACTION_COOLDOWN"
    using h c2 by (simp add: eligible_def)
  show "\<not> eligible ?w1 (g, react_key u) now' REACTION_COOLDOWN"
    by (rule b1)
  show "\<not> eligible ?w2 (g, react_key u) now' REACTION_COOLDOWN"
    by (rule b2)
  show "select_row (u, g) (xp_data (on_reaction_add (Some g) v vb (Some (u, False)) now' gv' ga' ?w1))
        = select_row (u, g) (xp_data ?w1)"
    by (rule blocked_row_unchanged [OF b1])
  show "select_row (u, g) (xp_data (on_reaction_add (Some g) u False author' now' gu' ga'' ?w2))
        = select_row (u, g) (xp_data ?w2)"
    by (rule blocked_row_unchanged [OF b2])
next
  show "eligible (on_reaction_add (Some g) u ub author now gu ga w) (g, IdKey x) t d
        = eligible w (g, IdKey x) t d"
    by (simp add: eligible_def reaction_keeps_message_keys)
qed

text \<open>Users 7 and 8 in guild 1, at times 100 and 101, with gains of 10.\<close>

theorem reaction_roles_share_one_cooldown_key_witness:
  "eligible start_world (1, react_key 7) 100 REACTION_COOLDOWN
   \<and> (101::real) - 100 < REACTION_COOLDOWN
   \<and> (8::int) \<noteq> 7
   \<and> \<not> isl (fst (add_xp 7 1 10 start_world))
   \<and> \<not> isl (fst (add_xp 8 1 10 start_world))
   \<and> \<not> eligible (on_reaction_add (Some 1) 7 False None 100 10 10 start_world)
            (1, react_key 7) 101 REACTION_COOLDOWN
   \<and> \<not> eligible (on_reaction_add (Some 1) 8 False (Some (7, False)) 100 10 10 start_world)
            (1, react_key 7) 101 REACTION_COOLDOWN"
proof -
  have e: "eligible start_world (1, react_key 7) 100 REACTION_COOLDOWN"
    by (simp add: eligible_def last_grant_start REACTION_COOLDOWN_def)
  have n: "(101::real) - 100 < REACTION_COOLDOWN"
    by (simp add: REACTION_COOLDOWN_def)
  have d: "(8::int) \<noteq> 7"
    by simp
  have p: "\<And>k. fst (get_user_data k 1 (xp_data start_world)) = \<lparr>xp = 0, level = 1\<rparr>"
    by (simp add: xp_data_start get_user_data_def select_row_def default_progress_def)
  have r7: "\<not> isl (fst (add_xp 7 1 10 start_world))"
    by (rule add_xp_returns) (simp_all add: p)
  have r8: "\<not> isl (fst (add_xp 8 1 10 start_world))"
    by (rule add_xp_returns) (simp_all add: p)
  from reaction_roles_share_one_cooldown_key
         [where w = start_world and g = 1 and u = 7 and now = 100 and now' = 101 and v = 8
            and gu = 10 and gv = 10 and ga = 10 and author = None]
       e n d r7 r8
  show ?thesis by blast
qed

section \<open>Two grants at once\<close>

text \<open>
  C3. Two coroutines run \<^verbatim>\<open>add_xp\<close> for the same user and guild, stored with 0 XP at
  level 1, with amounts 10 and 5. The first reads, the second reads, the first writes, the
  second writes: both have finished, and the row holds 5 XP, where either order of the two
  grants one after the other leaves 15 XP. The lock is held within each statement, not from
  the read to the write.
\<close>

theorem interleaved_grants_lose_an_update:
  "xp_data (snd (run_schedule [0, 1, 0, 1] [new_task 1 1 10, new_task 1 1 5]
        (start_world\<lparr>xp_data := [((1, 1), \<lparr>xp = 0, level = 1\<rparr>)]\<rparr>)))
     = [((1, 1), \<lparr>xp = 5, level = 1\<rparr>)]
   \<and> list_all finished (fst (run_schedule [0, 1, 0, 1] [new_task 1 1 10, new_task 1 1 5]
        (start_world\<lparr>xp_data := [((1, 1), \<lparr>xp = 0, level = 1\<rparr>)]\<rparr>)))
   \<and> xp_data (snd (add_xp 1 1 5 (snd (add_xp 1 1 10
        (start_world\<lparr>xp_data := [((1, 1), \<lparr>xp = 0, level = 1\<rparr>)]\<rparr>)))))
     = [((1, 1), \<lparr>xp = 15, level = 1\<rparr>)]
   \<and> xp_data (snd (add_xp 1 1 10 (snd (add_xp 1 1 5
        (start_world\<lparr>xp_data := [((1, 1), \<lparr>xp = 0, level = 1\<rparr>)]\<rparr>)))))
     = [((1, 1), \<lparr>xp = 15, level = 1\<rparr>)]"
  by (simp add: grant_step_def new_task_def finished_def add_xp_eq add_xp_check_def
      get_user_data_def select_row_def update_user_data_def update_row_def fits_def
      sqlite_int_def xp_for_next_level_def LEVEL_MULTIPLIER_def start_world_def Let_def)

end
